theory Spec2Isabelle
  imports Complex_Main
begin

section \<open>The blackbody notebook\<close>

text \<open>
  The notebook \<^verbatim>\<open>index.ipynb\<close> has one code cell with module-level values
  (\<^verbatim>\<open>lamda\<close>, \<^verbatim>\<open>B\<close>, \<^verbatim>\<open>h\<close>, \<^verbatim>\<open>c\<close>, \<^verbatim>\<open>temp_to_rgb\<close>), the functions
  \<^verbatim>\<open>planck\<close> and \<^verbatim>\<open>maxlamda\<close>, the callback \<^verbatim>\<open>g\<close> and an \<^verbatim>\<open>IntSlider\<close>
  that drives it.

  Python floats are read as real numbers: every arithmetic expression of the source
  denotes its exact value, and rounding is outside this model. The failures the source
  has in exact arithmetic (a zero divisor, an empty selection) are values of the type
  \<open>error\<close>. Where the double exponential leaves its range the exact value is not what
  the source computes; \<open>planck_double\<close> below has these cases, and it agrees with
  \<open>planck\<close> on the sampled wavelengths at the temperatures of the slider.
\<close>

datatype error = ZeroDivisionError | IndexError

subsection \<open>Module-level values\<close>

text \<open>
  \<^verbatim>\<open>np.arange(start, stop, step)\<close> for a positive step, after the numpy documentation:
  \<open>\<lceil>(stop - start) / step\<rceil>\<close> values \<open>start + i * step\<close>, the stop excluded.
\<close>

definition arange :: "real \<Rightarrow> real \<Rightarrow> real \<Rightarrow> real list" where
  "arange start stop step =
     map (\<lambda>i. start + real i * step) [0..<nat \<lceil>(stop - start) / step\<rceil>]"

text \<open>\<^verbatim>\<open>lamda = np.arange(1e-8, 2e-6, 5e-9)\<close>\<close>

definition lamda :: "real list" where
  "lamda = arange (1 / 10 ^ 8) (2 / 10 ^ 6) (5 / 10 ^ 9)"

text \<open>
  Modelled from the spec: the values of \<^verbatim>\<open>scipy.constants.Boltzmann\<close>,
  \<^verbatim>\<open>scipy.constants.h\<close> and \<^verbatim>\<open>scipy.constants.c\<close>, which the source binds to
  \<^verbatim>\<open>B\<close>, \<^verbatim>\<open>h\<close> and \<^verbatim>\<open>c\<close>. The library is not part of the repository; the spec
  gives \<open>k_B = 1.380649e-23\<close>, \<open>h = 6.62607015e-34\<close> and \<open>c = 299792458\<close>.
\<close>

definition B :: real where
  "B = 1.380649 / 10 ^ 23"

definition h :: real where
  "h = 6.62607015 / 10 ^ 34"

definition c :: real where
  "c = 299792458"

text \<open>
  The data frame \<^verbatim>\<open>temp_to_rgb\<close> is read from the pickle \<^verbatim>\<open>temp_to_rgb.data\<close>. Its
  content is not in the source: a table is any list of rows with the two columns the
  callback uses, and the type of a colour is left open.
\<close>

record 'c row =
  Temperature :: int
  rgb :: 'c

subsection \<open>Planck's law and Wien's law\<close>

text \<open>
  \<^verbatim>\<open>
  def planck(wav, T):
      numerator = 2*h*c**2
      exponent = np.exp(h*c/(wav*B*T))
      denominator = wav**5 * (exponent - 1.0)
      return numerator/denominator
  \<close>
  One element of the array computation. A zero divisor raises \<^verbatim>\<open>ZeroDivisionError\<close>
  on Python scalars and gives a non-finite entry on numpy arrays; both are the error
  value here.
\<close>

definition planck :: "real \<Rightarrow> real \<Rightarrow> error + real" where
  "planck wav T =
     (let numerator = 2 * h * c ^ 2 in
      if wav * B * T = 0 then Inl ZeroDivisionError
      else
        let exponent = exp (h * c / (wav * B * T));
            denominator = wav ^ 5 * (exponent - 1.0)
        in if denominator = 0 then Inl ZeroDivisionError
           else Inr (numerator / denominator))"

text \<open>
  The source's comment on \<^verbatim>\<open>lamda\<close> records an overflow when the samples start at
  1 nm. \<open>planck_double\<close> is \<open>planck\<close> with the double exponential at the two ends of
  its range. \<^verbatim>\<open>np.exp\<close> returns \<^verbatim>\<open>inf\<close> once the exact value reaches
  \<open>2\<^sup>1\<^sup>0\<^sup>2\<^sup>4 - 2\<^sup>9\<^sup>7\<^sup>0\<close>, the midpoint between the largest double
  \<open>(2\<^sup>5\<^sup>3 - 1) * 2\<^sup>9\<^sup>7\<^sup>1\<close> and \<open>2\<^sup>1\<^sup>0\<^sup>2\<^sup>4\<close>; then \<^verbatim>\<open>exponent - 1.0\<close> and the
  denominator are infinite and the quotient is \<open>0.0\<close>. It returns \<open>1.0\<close> when the
  exact value rounds to 1, between \<open>1 - 1 / 2\<^sup>5\<^sup>4\<close> and \<open>1 + 1 / 2\<^sup>5\<^sup>3\<close>; then the
  denominator is zero and the quotient is \<^verbatim>\<open>inf\<close>, a non-finite entry and so the error
  value as in \<open>planck\<close>. All other results of \<^verbatim>\<open>np.exp\<close> are left exact.
\<close>

datatype np_float = Num real | Inf

definition np_exp :: "real \<Rightarrow> np_float" where
  "np_exp x =
     (if 2 ^ 1024 - 2 ^ 970 \<le> exp x then Inf
      else if 1 - 1 / 2 ^ 54 \<le> exp x \<and> exp x \<le> 1 + 1 / 2 ^ 53 then Num 1
      else Num (exp x))"

definition planck_double :: "real \<Rightarrow> real \<Rightarrow> error + real" where
  "planck_double wav T =
     (let numerator = 2 * h * c ^ 2 in
      if wav * B * T = 0 then Inl ZeroDivisionError
      else
        case np_exp (h * c / (wav * B * T)) of
          Inf \<Rightarrow> Inr 0
        | Num exponent \<Rightarrow>
            let denominator = wav ^ 5 * (exponent - 1.0)
            in if denominator = 0 then Inl ZeroDivisionError
               else Inr (numerator / denominator))"

text \<open>
  \<^verbatim>\<open>
  def maxlamda(T):
      return (2.898*1e-3)/T
  \<close>
\<close>

definition maxlamda :: "real \<Rightarrow> error + real" where
  "maxlamda T =
     (if T = 0 then Inl ZeroDivisionError
      else Inr ((2.898 * (1 / 10 ^ 3)) / T))"

subsection \<open>The rendering callback\<close>

text \<open>
  The selection \<^verbatim>\<open>temp_to_rgb.loc[temp_to_rgb["Temperature"] == T, "rgb"]\<close> keeps the
  \<^verbatim>\<open>rgb\<close> entries of the rows whose temperature equals \<open>T\<close>, in table order, and
  \<^verbatim>\<open>.iloc[0]\<close> takes the first of them or raises \<^verbatim>\<open>IndexError\<close>.
\<close>

definition loc_rgb :: "'c row list \<Rightarrow> int \<Rightarrow> 'c list" where
  "loc_rgb tbl T = map rgb (filter (\<lambda>r. Temperature r = T) tbl)"

definition iloc0 :: "'a list \<Rightarrow> error + 'a" where
  "iloc0 xs = (case xs of [] \<Rightarrow> Inl IndexError | x # _ \<Rightarrow> Inr x)"

text \<open>
  The module-level values the callback reads, as the state it runs in, and what it
  hands to the plotting library: the curve (\<^verbatim>\<open>lamda*1e9\<close> against
  \<^verbatim>\<open>planck(lamda, T)\<close>), the position of the vertical line at the peak
  (\<^verbatim>\<open>max_lamda*1e9\<close>) and the face colour of the swatch. The colour bands and the
  annotations are constants of the source or depend on the axis limits the plotting
  library chooses; they are not part of the model.
\<close>

record 'c globals =
  g_lamda :: "real list"
  g_temp_to_rgb :: "'c row list"

record 'c plot =
  bbr_curve :: "(real \<times> (error + real)) list"
  max_line :: real
  showtemp :: 'c

definition notebook :: "'c row list \<Rightarrow> 'c globals" where
  "notebook tbl = \<lparr>g_lamda = lamda, g_temp_to_rgb = tbl\<rparr>"

text \<open>
  \<^verbatim>\<open>
  def g(T):
      bbr_curve = plt.plot(lamda*1e9, planck(lamda, T), label=f'{T} K')
      ...
      max_lamda = maxlamda(T)
      plt.axvline(max_lamda*1e9, ...)
      ...
      colorval = temp_to_rgb.loc[temp_to_rgb["Temperature"] == T, "rgb"].iloc[0]
      showtemp = Rectangle(..., facecolor=colorval)
      ...
  \<close>
  The callback returns its result together with the state it leaves behind.
\<close>

definition g :: "int \<Rightarrow> 'c globals \<Rightarrow> (error + 'c plot) \<times> 'c globals" where
  "g T s =
     (let curve = zip (map (\<lambda>w. w * 10 ^ 9) (g_lamda s))
                      (map (\<lambda>w. planck w (of_int T)) (g_lamda s))
      in case maxlamda (of_int T) of
           Inl e \<Rightarrow> (Inl e, s)
         | Inr max_lamda \<Rightarrow>
             (case iloc0 (loc_rgb (g_temp_to_rgb s) T) of
                Inl e \<Rightarrow> (Inl e, s)
              | Inr colorval \<Rightarrow>
                  (Inr \<lparr>bbr_curve = curve, max_line = max_lamda * 10 ^ 9,
                        showtemp = colorval\<rparr>, s)))"

text \<open>
  The callback also works on the state of \<^verbatim>\<open>pyplot\<close>: every drawing call adds an
  artist to the current axes, \<^verbatim>\<open>ax.get_ylim()\<close> and \<^verbatim>\<open>ax.get_xlim()\<close> read limits
  that depend on what the axes hold, and \<^verbatim>\<open>plt.show()\<close> hands the figure to the
  backend. \<open>g_pyplot\<close> is \<open>g\<close> with that state: a session extends the module-level
  values by the artists on the current axes, oldest first. What the plotting library
  answers is not in the repository and is the parameter \<open>be\<close>: the limits it reports
  for given artists, and the artists it leaves on the current axes after
  \<^verbatim>\<open>show\<close> (none with the inline backend). An exception leaves the artists drawn
  before it on the axes. The calls that only set the grid, the labels, the title and
  the legend are left out.
\<close>

datatype 'c artist =
    Line2D "real list" "(error + real) list"
  | AxVLine real
  | AxVSpan real real
  | Annotation string real real
  | Rectangle real real real real 'c

record 'c backend =
  get_ylim :: "'c artist list \<Rightarrow> real \<times> real"
  get_xlim :: "'c artist list \<Rightarrow> real \<times> real"
  plt_show :: "'c artist list \<Rightarrow> 'c artist list"

record 'c session = "'c globals" +
  gca :: "'c artist list"

definition g_pyplot ::
  "'c backend \<Rightarrow> int \<Rightarrow> 'c session \<Rightarrow> (error + 'c plot) \<times> 'c session" where
  "g_pyplot be T s =
     (let xs = map (\<lambda>w. w * 10 ^ 9) (g_lamda s);
          ys = map (\<lambda>w. planck w (of_int T)) (g_lamda s);
          a1 = gca s @ [Line2D xs ys];
          curymax = snd (get_ylim be a1);
          curxmax = snd (get_xlim be a1)
      in case maxlamda (of_int T) of
           Inl e \<Rightarrow> (Inl e, s\<lparr>gca := a1\<rparr>)
         | Inr max_lamda \<Rightarrow>
             (let a2 = a1 @
                    [AxVLine (max_lamda * 10 ^ 9),
                     AxVSpan 700 curxmax, AxVSpan 635 700, AxVSpan 590 635,
                     AxVSpan 560 590, AxVSpan 520 560, AxVSpan 490 520,
                     AxVSpan 450 490, AxVSpan 400 450, AxVSpan 10 400,
                     Annotation ''Infrared'' 1000 (curymax / 2),
                     Annotation ''Ultraviolet'' 150 (curymax / 2)]
              in case iloc0 (loc_rgb (g_temp_to_rgb s) T) of
                   Inl e \<Rightarrow> (Inl e, s\<lparr>gca := a2\<rparr>)
                 | Inr colorval \<Rightarrow>
                     (let a3 = a2 @
                            [Annotation ''Object Color'' 1800 (curymax / 2 + 0.22 * curymax),
                             Rectangle 1750 (curymax / 2) 300 (0.2 * curymax) colorval]
                      in (Inr \<lparr>bbr_curve = zip xs ys, max_line = max_lamda * 10 ^ 9,
                               showtemp = colorval\<rparr>,
                          s\<lparr>gca := plt_show be a3\<rparr>))))"

subsection \<open>The slider\<close>

text \<open>
  \<^verbatim>\<open>widgets.IntSlider(min=2100, max=20000, value=3000, step=100, ...)\<close>
\<close>

record IntSlider =
  slider_min :: int
  slider_max :: int
  slider_value :: int
  slider_step :: int

definition T_slider :: IntSlider where
  "T_slider = \<lparr>slider_min = 2100, slider_max = 20000, slider_value = 3000,
               slider_step = 100\<rparr>"

text \<open>
  Modelled from the spec: the values an integer slider can hand to its callback. The
  widget library is not part of the repository; the spec says the control enforces its
  bounds and moves in multiples of the step from the minimum.
\<close>

definition slider_values :: "IntSlider \<Rightarrow> int list" where
  "slider_values s =
     map (\<lambda>k. slider_min s + int k * slider_step s)
       [0..<nat ((slider_max s - slider_min s) div slider_step s + 1)]"

section \<open>Integer enclosures of the exponential\<close>

text \<open>
  The shape and the size of the curve depend on the values of \<open>exp\<close> at rational
  points, and the proofs need bounds on them. The bounds are computed in integer fixed-point arithmetic by the
  functions of this section and are proved sound further down. They are tools of the
  proofs, not code of the notebook.

  \<open>horner_lo sc u m 1 sc\<close> and \<open>horner_hi sc u m 1 sc\<close> evaluate the Taylor
  polynomial of degree \<open>m\<close> of \<open>exp\<close> at \<open>u / sc\<close> by Horner's rule, scaled
  by \<open>sc * m!\<close>; every division rounds down in the first and up in the second.
  \<open>horner\<close> is the same recursion over the reals.
\<close>

fun horner_lo :: "int \<Rightarrow> int \<Rightarrow> nat \<Rightarrow> int \<Rightarrow> int \<Rightarrow> int" where
  "horner_lo sc u 0 cf acc = acc"
| "horner_lo sc u (Suc m) cf acc =
     horner_lo sc u m (cf * int (Suc m)) (cf * int (Suc m) * sc + (u * acc) div sc)"

fun horner_hi :: "int \<Rightarrow> int \<Rightarrow> nat \<Rightarrow> int \<Rightarrow> int \<Rightarrow> int" where
  "horner_hi sc u 0 cf acc = acc"
| "horner_hi sc u (Suc m) cf acc =
     horner_hi sc u m (cf * int (Suc m)) (cf * int (Suc m) * sc + (u * acc) div sc + 1)"

fun horner :: "real \<Rightarrow> nat \<Rightarrow> real \<Rightarrow> real" where
  "horner x 0 v = v"
| "horner x (Suc m) v = horner x m (1 + x / real (Suc m) * v)"

text \<open>
  \<open>exp_lo sc m u\<close> is a lower bound of \<open>sc * m! * exp (u / sc)\<close>, and
  \<open>exp_hi sc m rem u\<close> an upper bound, where \<open>rem\<close> covers the remainder of the
  Taylor series.
\<close>

definition exp_lo :: "int \<Rightarrow> nat \<Rightarrow> int \<Rightarrow> int" where
  "exp_lo sc m u = horner_lo sc u m 1 sc"

definition exp_hi :: "int \<Rightarrow> nat \<Rightarrow> int \<Rightarrow> int \<Rightarrow> int" where
  "exp_hi sc m rem u = horner_hi sc u m 1 sc + rem"

text \<open>
  The arguments of interest are close to 5. With the scale \<open>SC = 2\<^sup>32\<close> the
  integers \<open>E_lo\<close> and \<open>E_hi\<close> enclose \<open>SC * exp (19 / 4)\<close>, and
  \<open>exp_x_lo u\<close>, \<open>exp_x_hi u\<close> bound \<open>2\<^sup>64 * 9! * exp (19 / 4 + u / SC)\<close> for
  \<open>0 \<le> u / SC \<le> 1 / 2\<close>.
\<close>

definition SC :: int where
  "SC = 2 ^ 32"

definition E_lo :: int where
  "E_lo = 496430721975"

definition E_hi :: int where
  "E_hi = 496430721976"

definition exp_x_lo :: "int \<Rightarrow> int" where
  "exp_x_lo u = E_lo * exp_lo SC 9 u"

definition exp_x_hi :: "int \<Rightarrow> int" where
  "exp_x_hi u = E_hi * exp_hi SC 9 838861 u"

section \<open>The samples in units of the step\<close>

text \<open>
  The sample with index \<open>i\<close> is the wavelength \<open>5e-9 * n\<close> with \<open>n = i + 2\<close>. With
  the constants above, \<open>h * c / (B * 5e-9) = 272115870842319 / 94565000\<close>, so the
  exponent of \<open>planck\<close> at that sample and the temperature \<open>T\<close> is
  \<open>xarg n T = x_scale T / n\<close>, and the denominator of \<open>planck\<close> is
  \<open>(5e-9)\<^sup>5 * denom (x_scale T) n\<close>. \<open>rad T i\<close> is the value of \<open>planck\<close> at the
  sample \<open>i\<close>.
\<close>

definition x_scale :: "int \<Rightarrow> real" where
  "x_scale T = 272115870842319 / (94565000 * of_int T)"

definition xarg :: "int \<Rightarrow> int \<Rightarrow> real" where
  "xarg n T = 272115870842319 / (94565000 * of_int n * of_int T)"

definition denom :: "real \<Rightarrow> real \<Rightarrow> real" where
  "denom a s = s ^ 5 * (exp (a / s) - 1)"

definition rad :: "int \<Rightarrow> nat \<Rightarrow> real" where
  "rad T i = 2 * h * c ^ 2 / ((5 / 10 ^ 9) ^ 5 * denom (x_scale T) (real i + 2))"

text \<open>
  \<open>arg_lo n T\<close> is \<open>xarg n T - 19 / 4\<close> in units of \<open>1 / SC\<close>, rounded down;
  \<open>den_lo n T\<close> and \<open>den_hi n T\<close> enclose \<open>2\<^sup>64 * 9! * denom (x_scale T) n\<close>.
\<close>

definition arg_lo :: "int \<Rightarrow> int \<Rightarrow> int" where
  "arg_lo n T =
     (SC * (4 * 272115870842319 - 19 * 94565000 * n * T)) div (4 * 94565000 * n * T)"

definition den_lo :: "int \<Rightarrow> int \<Rightarrow> int" where
  "den_lo n T = n ^ 5 * (exp_x_lo (arg_lo n T) - 2 ^ 64 * 362880)"

definition den_hi :: "int \<Rightarrow> int \<Rightarrow> int" where
  "den_hi n T = n ^ 5 * (exp_x_hi (arg_lo n T + 1) - 2 ^ 64 * 362880)"

text \<open>
  \<open>peak_check T\<close> looks for the index of the largest sample value at the temperature
  \<open>T\<close>. It takes the last sample number \<open>n0\<close> whose exponent is at least 4.9653,
  checks that the exponent of the next sample is at most 4.965 (the radiance rises
  while the exponent is above the first bound and falls once it is below the second),
  compares the two samples through the enclosures of their denominators, and checks that
  the larger one lies within one step of Wien's wavelength \<open>2898000 / T\<close> (in nm).
  It answers \<open>None\<close> when any of this cannot be decided. \<open>check_from T k\<close> runs it
  on \<open>k\<close> temperatures from \<open>T\<close> in steps of 100.
\<close>

definition peak_check :: "int \<Rightarrow> nat option" where
  "peak_check T =
    (let n0 = (272115870842319 * 10000) div (94565000 * T * 49653) in
     if 2 \<le> n0 \<and> n0 + 1 \<le> 399
        \<and> 49653 * (94565000 * n0 * T) \<le> 272115870842319 * 10000
        \<and> 272115870842319 * 1000 \<le> 4965 * (94565000 * (n0 + 1) * T)
        \<and> 0 \<le> arg_lo n0 T \<and> 2 * (arg_lo n0 T + 1) \<le> SC
        \<and> 0 \<le> arg_lo (n0 + 1) T \<and> 2 * (arg_lo (n0 + 1) T + 1) \<le> SC
     then
       if den_hi (n0 + 1) T < den_lo n0 T \<and> \<bar>5 * (n0 + 1) * T - 2898000\<bar> \<le> 5 * T
         then Some (nat (n0 - 1))
       else if den_hi n0 T < den_lo (n0 + 1) T \<and> \<bar>5 * n0 * T - 2898000\<bar> \<le> 5 * T
         then Some (nat (n0 - 2))
       else None
     else None)"

fun check_from :: "int \<Rightarrow> nat \<Rightarrow> bool" where
  "check_from T 0 = True"
| "check_from T (Suc k) = (peak_check T \<noteq> None \<and> check_from (T + 100) k)"

section \<open>Basic facts\<close>

lemma B_pos: "0 < B"
  by (simp add: B_def)

lemma h_pos: "0 < h"
  by (simp add: h_def)

lemma c_pos: "0 < c"
  by (simp add: c_def)

lemma exponent_arg_pos:
  assumes "0 < wav" and "0 < T"
  shows "0 < h * c / (wav * B * T)"
  using assms B_pos h_pos c_pos by simp

lemma denominator_pos:
  assumes "0 < wav" and "0 < T"
  shows "0 < wav ^ 5 * (exp (h * c / (wav * B * T)) - 1)"
proof -
  have "1 < exp (h * c / (wav * B * T))"
    using exponent_arg_pos [OF assms] by simp
  then show ?thesis
    using assms(1) by simp
qed

lemma planck_eq:
  assumes "0 < wav" and "0 < T"
  shows "planck wav T =
    Inr (2 * h * c ^ 2 / (wav ^ 5 * (exp (h * c / (wav * B * T)) - 1)))"
proof -
  have nz: "wav * B * T \<noteq> 0"
    using assms B_pos by simp
  have dz: "wav ^ 5 * (exp (h * c / (wav * B * T)) - 1) \<noteq> 0"
  proof
    assume "wav ^ 5 * (exp (h * c / (wav * B * T)) - 1) = 0"
    with denominator_pos [OF assms] show False
      by (simp only: less_irrefl)
  qed
  show ?thesis
    unfolding planck_def Let_def using nz dz by simp
qed

lemma lamda_eq:
  "lamda = map (\<lambda>i. 1 / 10 ^ 8 + real i * (5 / 10 ^ 9)) [0..<398]"
proof -
  have "\<lceil>((2 / 10 ^ 6 - 1 / 10 ^ 8) / (5 / 10 ^ 9) :: real)\<rceil> = 398"
    by simp
  then show ?thesis
    unfolding lamda_def arange_def by simp
qed

lemma length_lamda: "length lamda = 398"
  by (simp add: lamda_eq)

lemma lamda_nth:
  "i < 398 \<Longrightarrow> lamda ! i = 1 / 10 ^ 8 + real i * (5 / 10 ^ 9)"
  by (simp add: lamda_eq)

lemma slider_values_eq:
  "slider_values T_slider = map (\<lambda>k. 2100 + int k * 100) [0..<180]"
  by (simp add: slider_values_def T_slider_def)

lemma slider_values_iff:
  "T \<in> set (slider_values T_slider) \<longleftrightarrow> 2100 \<le> T \<and> T \<le> 20000 \<and> 100 dvd (T - 2100)"
proof
  assume "T \<in> set (slider_values T_slider)"
  then obtain k where "k < 180" and "T = 2100 + int k * 100"
    by (auto simp: slider_values_eq)
  then show "2100 \<le> T \<and> T \<le> 20000 \<and> 100 dvd (T - 2100)"
    by simp
next
  assume a: "2100 \<le> T \<and> T \<le> 20000 \<and> 100 dvd (T - 2100)"
  then obtain q where q: "T - 2100 = 100 * q"
    by (auto simp: dvd_def)
  with a have "0 \<le> q" and "q < 180"
    by simp_all
  then have "nat q < 180" and "T = 2100 + int (nat q) * 100"
    using q by simp_all
  then show "T \<in> set (slider_values T_slider)"
    unfolding slider_values_eq by (auto simp: image_iff intro!: bexI [of _ "nat q"])
qed

lemma lamda_nonempty: "lamda \<noteq> []"
  using length_lamda by auto

lemma hd_lamda: "hd lamda = 1 / 10 ^ 8"
  by (simp add: lamda_eq hd_map)

lemma last_lamda: "last lamda = 1995 / 10 ^ 9"
  by (simp add: lamda_eq last_map)

section \<open>The radiance function\<close>

text \<open>
  C4: for every wavelength \<open>wav > 0\<close> and temperature \<open>T > 0\<close> the denominator
  \<open>wav\<^sup>5 (e\<^bsup>h c / (wav k T)\<^esup> - 1)\<close> is strictly positive, so the division is
  defined, and \<open>planck wav T\<close> is a strictly positive number.
\<close>

theorem planck_positive:
  assumes "0 < wav" and "0 < T"
  shows "0 < wav ^ 5 * (exp (h * c / (wav * B * T)) - 1)
    \<and> (\<exists>y. planck wav T = Inr y \<and> 0 < y)"
proof
  show d: "0 < wav ^ 5 * (exp (h * c / (wav * B * T)) - 1)"
    by (rule denominator_pos [OF assms])
  have "0 < 2 * h * c ^ 2"
    using h_pos c_pos by simp
  from this d have "0 < 2 * h * c ^ 2 / (wav ^ 5 * (exp (h * c / (wav * B * T)) - 1))"
    by (rule divide_pos_pos)
  with planck_eq [OF assms] show "\<exists>y. planck wav T = Inr y \<and> 0 < y"
    by blast
qed

theorem planck_positive_witness:
  "(0::real) < 1 / 10 ^ 8 \<and> (0::real) < 2100 \<and>
   (\<exists>y. planck (1 / 10 ^ 8) 2100 = Inr y \<and> 0 < y)"
proof -
  have a: "(0::real) < 1 / 10 ^ 8" and b: "(0::real) < 2100"
    by simp_all
  from planck_positive [OF a b] a b show ?thesis
    by blast
qed

section \<open>The peak wavelength function\<close>

text \<open>
  C2: for every temperature \<open>T > 0\<close>, \<open>maxlamda T\<close> returns \<open>2.898e-3 / T\<close>; no
  positive temperature is an error.
\<close>

theorem maxlamda_wien:
  assumes "0 < T"
  shows "maxlamda T = Inr (2.898 / 10 ^ 3 / T)"
  using assms by (simp add: maxlamda_def)

theorem maxlamda_wien_witness:
  "(0::real) < 2100 \<and> maxlamda 2100 = Inr (2.898 / 10 ^ 3 / 2100)"
proof -
  have a: "(0::real) < 2100"
    by simp
  from maxlamda_wien [OF a] a show ?thesis
    by blast
qed

section \<open>The wavelength samples\<close>

lemma lamda_set:
  "w \<in> set lamda \<longleftrightarrow> (\<exists>i<398. w = 1 / 10 ^ 8 + real i * (5 / 10 ^ 9))"
  by (auto simp: lamda_eq)

lemma g_state: "snd (g T s) = s"
  by (simp add: g_def Let_def split: sum.splits)

text \<open>
  C6: the wavelength samples are an ordered sequence with the fixed step \<open>5e-9\<close>: the
  398 values \<open>1e-8 + 5e-9 i\<close>, from \<open>1e-8\<close> up to \<open>1.995e-6\<close>, one step below the
  excluded stop \<open>2e-6\<close>. The sequence is strictly increasing, lies in
  \<open>[1e-8, 2e-6)\<close>, and the callback leaves it as it was generated.
\<close>

theorem lamda_samples:
  "lamda = map (\<lambda>i. 1 / 10 ^ 8 + real i * (5 / 10 ^ 9)) [0..<398]
   \<and> hd lamda = 1 / 10 ^ 8
   \<and> last lamda = 1995 / 10 ^ 9
   \<and> last lamda + 5 / 10 ^ 9 = 2 / 10 ^ 6
   \<and> (\<forall>i. Suc i < length lamda \<longrightarrow> lamda ! Suc i - lamda ! i = 5 / 10 ^ 9)
   \<and> sorted_wrt (<) lamda
   \<and> (\<forall>w\<in>set lamda. 1 / 10 ^ 8 \<le> w \<and> w < 2 / 10 ^ 6)
   \<and> (\<forall>T tbl. g_lamda (snd (g T (notebook tbl))) = lamda)"
proof (intro conjI)
  show "lamda = map (\<lambda>i. 1 / 10 ^ 8 + real i * (5 / 10 ^ 9)) [0..<398]"
    by (rule lamda_eq)
  show "hd lamda = 1 / 10 ^ 8"
    by (rule hd_lamda)
  show "last lamda = 1995 / 10 ^ 9"
    by (rule last_lamda)
  show "last lamda + 5 / 10 ^ 9 = 2 / 10 ^ 6"
    by (simp add: last_lamda)
  show "\<forall>i. Suc i < length lamda \<longrightarrow> lamda ! Suc i - lamda ! i = 5 / 10 ^ 9"
  proof (intro allI impI)
    fix i
    assume "Suc i < length lamda"
    then have "Suc i < 398" and "i < 398"
      by (simp_all add: length_lamda)
    then show "lamda ! Suc i - lamda ! i = 5 / 10 ^ 9"
      by (simp add: lamda_nth algebra_simps)
  qed
  show "sorted_wrt (<) lamda"
    unfolding sorted_wrt_iff_nth_less
  proof (intro allI impI)
    fix i j
    assume "i < j" and "j < length lamda"
    then have "i < 398" and "j < 398"
      by (simp_all add: length_lamda)
    then show "lamda ! i < lamda ! j"
      using \<open>i < j\<close> by (simp add: lamda_nth)
  qed
  show "\<forall>w\<in>set lamda. 1 / 10 ^ 8 \<le> w \<and> w < 2 / 10 ^ 6"
  proof
    fix w
    assume "w \<in> set lamda"
    then obtain i where i: "i < 398" and w: "w = 1 / 10 ^ 8 + real i * (5 / 10 ^ 9)"
      by (auto simp: lamda_set)
    from i have "real i \<le> 397"
      by simp
    then show "1 / 10 ^ 8 \<le> w \<and> w < 2 / 10 ^ 6"
      unfolding w by simp
  qed
  show "\<forall>T (tbl :: 'a row list). g_lamda (snd (g T (notebook tbl))) = lamda"
    by (simp add: g_state notebook_def)
qed

theorem lamda_samples_witness:
  "Suc 0 < length lamda \<and> lamda ! Suc 0 - lamda ! 0 = 5 / 10 ^ 9
   \<and> lamda ! 1 \<in> set lamda \<and> 1 / 10 ^ 8 \<le> lamda ! 1 \<and> lamda ! 1 < 2 / 10 ^ 6"
proof -
  have l: "Suc 0 < length lamda"
    by (simp add: length_lamda)
  then have m: "lamda ! 1 \<in> set lamda"
    by simp
  from lamda_samples l m show ?thesis
    by blast
qed

section \<open>The slider\<close>

text \<open>
  C9: the slider has the bounds 2100 and 20000, the step 100 and the initial value
  3000; the temperatures it hands to the callback are exactly the multiples of 100 in
  \<open>[2100, 20000]\<close>, and the initial value is one of them.
\<close>

theorem slider_range:
  "slider_min T_slider = 2100 \<and> slider_max T_slider = 20000
   \<and> slider_step T_slider = 100 \<and> slider_value T_slider = 3000
   \<and> slider_values T_slider = map (\<lambda>k. 2100 + 100 * int k) [0..<180]
   \<and> set (slider_values T_slider) = {T. 2100 \<le> T \<and> T \<le> 20000 \<and> 100 dvd T}
   \<and> slider_value T_slider \<in> set (slider_values T_slider)"
proof (intro conjI)
  show "slider_values T_slider = map (\<lambda>k. 2100 + 100 * int k) [0..<180]"
    by (simp add: slider_values_eq mult.commute)
  have d: "100 dvd (T - 2100) \<longleftrightarrow> 100 dvd T" for T :: int
    by presburger
  show "set (slider_values T_slider) = {T. 2100 \<le> T \<and> T \<le> 20000 \<and> 100 dvd T}"
    using slider_values_iff by (auto simp: d)
  then show "slider_value T_slider \<in> set (slider_values T_slider)"
    by (simp add: T_slider_def)
qed (simp_all add: T_slider_def)

section \<open>The rendering callback\<close>

lemma iloc0_loc_rgb_find:
  "iloc0 (loc_rgb tbl T) =
     (case List.find (\<lambda>r. Temperature r = T) tbl of
        None \<Rightarrow> Inl IndexError | Some r \<Rightarrow> Inr (rgb r))"
  by (induction tbl) (simp_all add: iloc0_def loc_rgb_def)

lemma g_result:
  "fst (g T s) =
     (if T = 0 then Inl ZeroDivisionError
      else case List.find (\<lambda>r. Temperature r = T) (g_temp_to_rgb s) of
             None \<Rightarrow> Inl IndexError
           | Some r \<Rightarrow>
               Inr \<lparr>bbr_curve = zip (map (\<lambda>w. w * 10 ^ 9) (g_lamda s))
                                    (map (\<lambda>w. planck w (of_int T)) (g_lamda s)),
                    max_line = 2.898 * (1 / 10 ^ 3) / of_int T * 10 ^ 9,
                    showtemp = rgb r\<rparr>)"
  by (simp add: g_def maxlamda_def iloc0_loc_rgb_find Let_def split: option.splits)

lemma slider_values_nonzero: "T \<in> set (slider_values T_slider) \<Longrightarrow> T \<noteq> 0"
  by (auto simp: slider_values_iff)

text \<open>
  C5: the colour lookup of the callback is an exact match on the temperature column.
  If every temperature of the slider has a row, then for each such \<open>T\<close> the callback
  succeeds and the swatch has the colour of the first row whose temperature equals
  \<open>T\<close>. If no row has the temperature \<open>T\<close>, the selection is empty, the lookup is
  the error \<^verbatim>\<open>IndexError\<close> and the callback returns an error, not a value.
\<close>

theorem color_lookup:
  "((\<forall>T'\<in>set (slider_values T_slider). \<exists>r\<in>set tbl. Temperature r = T')
      \<and> T \<in> set (slider_values T_slider) \<longrightarrow>
      (\<exists>p r. fst (g T (notebook tbl)) = Inr p
         \<and> List.find (\<lambda>r. Temperature r = T) tbl = Some r
         \<and> Temperature r = T \<and> r \<in> set tbl \<and> showtemp p = rgb r))
   \<and> ((\<forall>r\<in>set tbl. Temperature r \<noteq> T) \<longrightarrow>
      iloc0 (loc_rgb tbl T) = Inl IndexError
      \<and> fst (g T (notebook tbl)) = Inl (if T = 0 then ZeroDivisionError else IndexError))"
proof (intro conjI impI)
  assume a: "(\<forall>T'\<in>set (slider_values T_slider). \<exists>r\<in>set tbl. Temperature r = T')
      \<and> T \<in> set (slider_values T_slider)"
  then have "\<exists>r\<in>set tbl. Temperature r = T"
    by blast
  then obtain r where r: "List.find (\<lambda>r. Temperature r = T) tbl = Some r"
    by (cases "List.find (\<lambda>r. Temperature r = T) tbl") (auto simp: find_None_iff)
  then have "Temperature r = T" and "r \<in> set tbl"
    by (auto simp: find_Some_iff)
  moreover from a have "T \<noteq> 0"
    by (simp add: slider_values_nonzero)
  ultimately show "\<exists>p r. fst (g T (notebook tbl)) = Inr p
         \<and> List.find (\<lambda>r. Temperature r = T) tbl = Some r
         \<and> Temperature r = T \<and> r \<in> set tbl \<and> showtemp p = rgb r"
    using r by (simp add: g_result notebook_def)
next
  assume "\<forall>r\<in>set tbl. Temperature r \<noteq> T"
  then have n: "List.find (\<lambda>r. Temperature r = T) tbl = None"
    by (simp add: find_None_iff)
  then show "iloc0 (loc_rgb tbl T) = Inl IndexError"
    by (simp add: iloc0_loc_rgb_find)
  from n show "fst (g T (notebook tbl)) = Inl (if T = 0 then ZeroDivisionError else IndexError)"
    by (simp add: g_result notebook_def)
qed

theorem color_lookup_witness:
  "(\<exists>p (r :: int row). fst (g 3000 (notebook (map (\<lambda>T. \<lparr>Temperature = T, rgb = T - 2000\<rparr>)
                                    (slider_values T_slider)))) = Inr p
      \<and> Temperature r = 3000 \<and> showtemp p = rgb r)
   \<and> fst (g 2150 (notebook (map (\<lambda>T. \<lparr>Temperature = T, rgb = T - 2000\<rparr>)
                                (slider_values T_slider)))) = Inl IndexError"
proof -
  let ?tbl = "map (\<lambda>T. \<lparr>Temperature = T, rgb = T - 2000\<rparr>) (slider_values T_slider)"
  have contract: "\<forall>T'\<in>set (slider_values T_slider). \<exists>r\<in>set ?tbl. Temperature r = T'"
    by simp
  have reach: "(3000::int) \<in> set (slider_values T_slider)"
    by (simp add: slider_values_iff)
  have absent: "\<forall>r\<in>set ?tbl. Temperature r \<noteq> 2150"
    by (auto simp: slider_values_iff)
  note color_lookup [of ?tbl 3000, THEN conjunct1, THEN mp, OF conjI [OF contract reach]]
  then obtain p and r :: "int row" where "fst (g 3000 (notebook ?tbl)) = Inr p"
    and "Temperature r = 3000" and "showtemp p = rgb r"
    by blast
  then have 1: "\<exists>p (r :: int row). fst (g 3000 (notebook ?tbl)) = Inr p
      \<and> Temperature r = 3000 \<and> showtemp p = rgb r"
    by blast
  note color_lookup [of ?tbl 2150, THEN conjunct2, THEN mp, OF absent]
  then have 2: "fst (g 2150 (notebook ?tbl)) = Inl IndexError"
    by simp
  from 1 2 show ?thesis
    by (rule conjI)
qed

lemma g_pyplot_result:
  "fst (g_pyplot be T s)
     = fst (g T \<lparr>g_lamda = g_lamda s, g_temp_to_rgb = g_temp_to_rgb s\<rparr>)"
  by (simp add: g_pyplot_def g_def Let_def split: sum.splits)

lemma g_pyplot_globals:
  "g_lamda (snd (g_pyplot be T s)) = g_lamda s"
  "g_temp_to_rgb (snd (g_pyplot be T s)) = g_temp_to_rgb s"
  by (simp_all add: g_pyplot_def Let_def split: sum.splits)

lemma g_pyplot_draws:
  "gca (snd (g_pyplot be 0 s))
     = gca s @ [Line2D (map (\<lambda>w. w * 10 ^ 9) (g_lamda s))
                       (map (\<lambda>w. planck w 0) (g_lamda s))]"
  by (simp add: g_pyplot_def maxlamda_def Let_def)

text \<open>
  C7: the result of the callback, and with it the curve it draws, depends on the
  temperature, the wavelength samples and the colour table alone. The callback changes
  the state of \<^verbatim>\<open>pyplot\<close> but not the samples or the table, so a second call with the
  same temperature gives the same result as the first, whatever the plotting library
  answers; and where the temperature is not 0 and has a row in the table, the curve is
  \<open>planck\<close> over the samples.
\<close>

theorem g_pyplot_idempotent:
  "g_lamda (snd (g_pyplot be T s)) = g_lamda s
   \<and> g_temp_to_rgb (snd (g_pyplot be T s)) = g_temp_to_rgb s
   \<and> fst (g_pyplot be' T (snd (g_pyplot be T s))) = fst (g_pyplot be T s)
   \<and> (T \<noteq> 0 \<and> (\<exists>r\<in>set (g_temp_to_rgb s). Temperature r = T) \<longrightarrow>
        (\<exists>p. fst (g_pyplot be T s) = Inr p
           \<and> map snd (bbr_curve p) = map (\<lambda>w. planck w (of_int T)) (g_lamda s)
           \<and> map fst (bbr_curve p) = map (\<lambda>w. w * 10 ^ 9) (g_lamda s)))"
proof (intro conjI impI)
  show "g_lamda (snd (g_pyplot be T s)) = g_lamda s"
    and "g_temp_to_rgb (snd (g_pyplot be T s)) = g_temp_to_rgb s"
    by (rule g_pyplot_globals)+
  show "fst (g_pyplot be' T (snd (g_pyplot be T s))) = fst (g_pyplot be T s)"
    by (simp only: g_pyplot_result g_pyplot_globals)
next
  assume a: "T \<noteq> 0 \<and> (\<exists>r\<in>set (g_temp_to_rgb s). Temperature r = T)"
  then obtain r where "List.find (\<lambda>r. Temperature r = T) (g_temp_to_rgb s) = Some r"
    by (cases "List.find (\<lambda>r. Temperature r = T) (g_temp_to_rgb s)")
      (auto simp: find_None_iff)
  with a show "\<exists>p. fst (g_pyplot be T s) = Inr p
           \<and> map snd (bbr_curve p) = map (\<lambda>w. planck w (of_int T)) (g_lamda s)
           \<and> map fst (bbr_curve p) = map (\<lambda>w. w * 10 ^ 9) (g_lamda s)"
    by (simp add: g_pyplot_result g_result)
qed

theorem g_pyplot_idempotent_witness:
  "\<exists>p. fst (g_pyplot \<lparr>get_ylim = (\<lambda>a. (0, 1)), get_xlim = (\<lambda>a. (0, 2000)), plt_show = (\<lambda>a. [])\<rparr> 3000
             \<lparr>g_lamda = lamda, g_temp_to_rgb = [\<lparr>Temperature = 3000, rgb = ''#ffb46b''\<rparr>],
              gca = [AxVLine 5]\<rparr>) = Inr p
     \<and> fst (g_pyplot \<lparr>get_ylim = (\<lambda>a. (0, 1)), get_xlim = (\<lambda>a. (0, 2000)), plt_show = (\<lambda>a. [])\<rparr> 3000
             (snd (g_pyplot \<lparr>get_ylim = (\<lambda>a. (0, 1)), get_xlim = (\<lambda>a. (0, 2000)), plt_show = (\<lambda>a. [])\<rparr> 3000
               \<lparr>g_lamda = lamda, g_temp_to_rgb = [\<lparr>Temperature = 3000, rgb = ''#ffb46b''\<rparr>],
                gca = [AxVLine 5]\<rparr>))) = Inr p
     \<and> map snd (bbr_curve p) = map (\<lambda>w. planck w 3000) lamda
     \<and> gca (snd (g_pyplot \<lparr>get_ylim = (\<lambda>a. (0, 1)), get_xlim = (\<lambda>a. (0, 2000)), plt_show = (\<lambda>a. [])\<rparr> 3000
               \<lparr>g_lamda = lamda, g_temp_to_rgb = [\<lparr>Temperature = 3000, rgb = ''#ffb46b''\<rparr>],
                gca = [AxVLine 5]\<rparr>)) \<noteq> [AxVLine 5]"
proof -
  let ?be = "\<lparr>get_ylim = (\<lambda>a :: string artist list. (0 :: real, 1 :: real)),
              get_xlim = (\<lambda>a. (0, 2000)), plt_show = (\<lambda>a. [])\<rparr>"
  let ?s = "\<lparr>g_lamda = lamda, g_temp_to_rgb = [\<lparr>Temperature = 3000, rgb = ''#ffb46b''\<rparr>],
             gca = [AxVLine 5]\<rparr>"
  have h1: "(3000 :: int) \<noteq> 0 \<and> (\<exists>r\<in>set (g_temp_to_rgb ?s). Temperature r = 3000)"
    by simp
  note t = g_pyplot_idempotent [of ?be 3000 ?s ?be]
  from t [THEN conjunct2, THEN conjunct2, THEN conjunct2, THEN mp, OF h1]
  obtain p where p: "fst (g_pyplot ?be 3000 ?s) = Inr p"
    and c': "map snd (bbr_curve p) = map (\<lambda>w. planck w 3000) lamda"
    by auto
  have q: "fst (g_pyplot ?be 3000 (snd (g_pyplot ?be 3000 ?s))) = Inr p"
    unfolding t [THEN conjunct2, THEN conjunct2, THEN conjunct1] by (rule p)
  have g: "gca (snd (g_pyplot ?be 3000 ?s)) = []"
    by (simp add: g_pyplot_def maxlamda_def iloc0_def loc_rgb_def Let_def)
  show ?thesis
    by (rule exI [of _ p]) (simp only: p q c' g, simp)
qed

lemma maxlamda_slider_bounds:
  assumes "2100 \<le> T" and "T \<le> 20000"
  shows "1.449 / 10 ^ 7 \<le> 2.898 / 10 ^ 3 / (of_int T :: real)"
    and "2.898 / 10 ^ 3 / (of_int T :: real) \<le> 1.38 / 10 ^ 6"
proof -
  have T: "0 < (of_int T :: real)" "(of_int T :: real) \<le> 20000" "2100 \<le> (of_int T :: real)"
    using assms by simp_all
  show "1.449 / 10 ^ 7 \<le> 2.898 / 10 ^ 3 / (of_int T :: real)"
    using T by (simp add: field_simps)
  show "2.898 / 10 ^ 3 / (of_int T :: real) \<le> 1.38 / 10 ^ 6"
    using T by (simp add: field_simps)
qed

text \<open>
  C10: for every temperature \<open>T\<close> of the slider, \<open>maxlamda T\<close> lies strictly between
  the first and the last wavelength sample, between \<open>1.449e-7\<close> (its value at 20000)
  and \<open>1.38e-6\<close> (its value at 2100), and the vertical line the callback draws lies
  strictly inside the plotted wavelengths.
\<close>

theorem peak_inside_samples:
  assumes "T \<in> set (slider_values T_slider)"
  shows "\<exists>w. maxlamda (of_int T) = Inr w
      \<and> hd lamda < w \<and> w < last lamda
      \<and> 1.449 / 10 ^ 7 \<le> w \<and> w \<le> 1.38 / 10 ^ 6
      \<and> (\<forall>tbl p. fst (g T (notebook tbl)) = Inr p \<longrightarrow>
            max_line p = w * 10 ^ 9
            \<and> fst (hd (bbr_curve p)) < max_line p
            \<and> max_line p < fst (last (bbr_curve p)))"
proof -
  from assms have T: "2100 \<le> T" "T \<le> 20000"
    by (simp_all add: slider_values_iff)
  define w :: real where "w = 2.898 / 10 ^ 3 / of_int T"
  have m: "maxlamda (of_int T) = Inr w"
    using T by (simp add: maxlamda_def w_def)
  have lo: "1.449 / 10 ^ 7 \<le> w" and hi: "w \<le> 1.38 / 10 ^ 6"
    unfolding w_def using maxlamda_slider_bounds [OF T] by simp_all
  have a: "hd lamda < w"
    using lo by (simp add: hd_lamda)
  have b: "w < last lamda"
    using hi by (simp add: last_lamda)
  have "max_line p = w * 10 ^ 9 \<and> fst (hd (bbr_curve p)) < max_line p
      \<and> max_line p < fst (last (bbr_curve p))"
    if "fst (g T (notebook tbl)) = Inr p" for tbl :: "'a row list" and p
  proof -
    from that have c: "bbr_curve p = zip (map (\<lambda>w. w * 10 ^ 9) lamda)
                               (map (\<lambda>w. planck w (of_int T)) lamda)"
      and l: "max_line p = w * 10 ^ 9"
      by (auto simp: g_result notebook_def w_def split: if_splits option.splits)
    have "fst (hd (bbr_curve p)) = hd lamda * 10 ^ 9"
      unfolding c using lamda_nonempty by (simp add: hd_zip hd_map)
    moreover have "fst (last (bbr_curve p)) = last lamda * 10 ^ 9"
      unfolding c using lamda_nonempty by (simp add: last_zip last_map)
    ultimately show ?thesis
      using a b l by simp
  qed
  with m a b lo hi show ?thesis
    by blast
qed

theorem peak_inside_samples_witness:
  "\<exists>w p. maxlamda 3000 = Inr w \<and> hd lamda < w \<and> w < last lamda
     \<and> fst (g 3000 (notebook [\<lparr>Temperature = 3000, rgb = ''#ffb46b''\<rparr>])) = Inr p
     \<and> fst (hd (bbr_curve p)) < max_line p
     \<and> max_line p < fst (last (bbr_curve p))"
proof -
  let ?tbl = "[\<lparr>Temperature = 3000, rgb = ''#ffb46b''\<rparr>]"
  have "(3000::int) \<in> set (slider_values T_slider)"
    by (simp add: slider_values_iff)
  from peak_inside_samples [OF this] obtain w where
    w: "maxlamda (of_int 3000) = Inr w" "hd lamda < w" "w < last lamda"
    and p: "\<forall>(tbl :: string row list) p. fst (g 3000 (notebook tbl)) = Inr p \<longrightarrow>
            max_line p = w * 10 ^ 9
            \<and> fst (hd (bbr_curve p)) < max_line p
            \<and> max_line p < fst (last (bbr_curve p))"
    by blast
  obtain p where g: "fst (g 3000 (notebook ?tbl)) = Inr p"
    by (simp add: g_result notebook_def)
  with p have "fst (hd (bbr_curve p)) < max_line p" and "max_line p < fst (last (bbr_curve p))"
    by blast+
  with w g show ?thesis
    by auto
qed

section \<open>Soundness of the enclosures\<close>

lemma horner_sum: "horner x m v = (\<Sum>j<m. x ^ j / fact j) + x ^ m / fact m * v"
proof (induction m arbitrary: v)
  case 0
  show ?case by simp
next
  case (Suc m)
  define k where "k = real (Suc m)"
  have k: "k \<noteq> 0"
    by (simp add: k_def)
  have f: "fact (Suc m) = k * fact m"
    by (simp add: k_def)
  have "horner x (Suc m) v = (\<Sum>j<m. x ^ j / fact j) + x ^ m / fact m * (1 + x / k * v)"
    by (simp add: Suc.IH k_def)
  also have "x ^ m / fact m * (1 + x / k * v) = x ^ m / fact m + x ^ Suc m / (k * fact m) * v"
    using k by (simp add: field_simps)
  also have "(\<Sum>j<m. x ^ j / fact j) + (x ^ m / fact m + x ^ Suc m / (k * fact m) * v)
      = (\<Sum>j<Suc m. x ^ j / fact j) + x ^ Suc m / fact (Suc m) * v"
    by (simp only: f sum.lessThan_Suc add.assoc)
  finally show ?case .
qed

lemma horner_taylor: "horner x m 1 = (\<Sum>j<Suc m. x ^ j / fact j)"
  by (simp add: horner_sum)

lemma horner_lo_sound:
  assumes "0 < sc" and "0 \<le> u" and "real_of_int u / real_of_int sc \<le> x"
    and "0 \<le> acc" and "0 < cf" and "0 \<le> v"
    and "real_of_int acc \<le> real_of_int sc * real_of_int cf * v"
  shows "real_of_int (horner_lo sc u m cf acc)
      \<le> real_of_int sc * (real_of_int cf * fact m) * horner x m v"
  using assms(4-7)
proof (induction m arbitrary: cf acc v)
  case 0
  then show ?case by simp
next
  case (Suc m)
  let ?cf = "cf * int (Suc m)"
  let ?acc = "?cf * sc + (u * acc) div sc"
  let ?v = "1 + x / real (Suc m) * v"
  have x0: "0 \<le> x"
    using assms(1-3) by (meson divide_nonneg_pos of_int_0_le_iff of_int_0_less_iff order_trans)
  have ux: "real_of_int u \<le> x * real_of_int sc"
    using assms(1,3) by (simp add: pos_divide_le_eq)
  have "real_of_int ((u * acc) div sc) \<le> real_of_int (u * acc) / real_of_int sc"
    by (rule real_of_int_div4)
  also have "\<dots> = real_of_int u * real_of_int acc / real_of_int sc"
    by simp
  also have "\<dots> \<le> (x * real_of_int sc) * (real_of_int sc * real_of_int cf * v) / real_of_int sc"
    using ux Suc.prems assms(1,2)
    by (intro divide_right_mono mult_mono) simp_all
  also have "\<dots> = real_of_int sc * real_of_int cf * x * v"
    using assms(1) by simp
  finally have d: "real_of_int ((u * acc) div sc) \<le> real_of_int sc * real_of_int cf * x * v" .
  have a: "0 \<le> ?acc"
    using Suc.prems assms(1,2) by (simp add: pos_imp_zdiv_nonneg_iff)
  have b: "0 < ?cf"
    using Suc.prems by simp
  have c: "0 \<le> ?v"
    using Suc.prems x0 by simp
  define k where "k = real (Suc m)"
  have k: "k \<noteq> 0"
    by (simp add: k_def)
  have "real_of_int sc * (real_of_int cf * k) * (1 + x / k * v)
      = real_of_int sc * (real_of_int cf * k) + real_of_int sc * real_of_int cf * x * v"
    using k by (simp add: field_simps)
  with d have e: "real_of_int ?acc \<le> real_of_int sc * real_of_int ?cf * ?v"
    by (simp add: k_def)
  have g: "real_of_int ?cf * fact m = real_of_int cf * fact (Suc m)"
    by simp
  have "real_of_int (horner_lo sc u (Suc m) cf acc) = real_of_int (horner_lo sc u m ?cf ?acc)"
    by simp
  also have "\<dots> \<le> real_of_int sc * (real_of_int ?cf * fact m) * horner x m ?v"
    by (rule Suc.IH [OF a b c e])
  also have "\<dots> = real_of_int sc * (real_of_int cf * fact (Suc m)) * horner x (Suc m) v"
    by (simp only: g horner.simps)
  finally show ?case .
qed

lemma horner_hi_sound:
  assumes "0 < sc" and "0 \<le> x" and "x \<le> real_of_int u / real_of_int sc"
    and "0 < cf" and "0 \<le> v"
    and "real_of_int sc * real_of_int cf * v \<le> real_of_int acc"
  shows "real_of_int sc * (real_of_int cf * fact m) * horner x m v
      \<le> real_of_int (horner_hi sc u m cf acc)"
  using assms(4-6)
proof (induction m arbitrary: cf acc v)
  case 0
  then show ?case by simp
next
  case (Suc m)
  let ?cf = "cf * int (Suc m)"
  let ?acc = "?cf * sc + (u * acc) div sc + 1"
  let ?v = "1 + x / real (Suc m) * v"
  have xu: "x * real_of_int sc \<le> real_of_int u"
    using assms(1,3) by (simp add: pos_le_divide_eq)
  have s0: "0 \<le> real_of_int sc * real_of_int cf * v"
    using assms(1) Suc.prems by simp
  have "0 \<le> x * real_of_int sc"
    using assms(1,2) by simp
  with xu have u0: "0 \<le> real_of_int u"
    by linarith
  have "real_of_int sc * real_of_int cf * x * v
      = (x * real_of_int sc) * (real_of_int sc * real_of_int cf * v) / real_of_int sc"
    using assms(1) by simp
  also have "\<dots> \<le> real_of_int u * real_of_int acc / real_of_int sc"
    using xu Suc.prems assms(1,2) s0 u0
    by (intro divide_right_mono mult_mono) simp_all
  also have "\<dots> = real_of_int (u * acc) / real_of_int sc"
    by simp
  also have "\<dots> \<le> real_of_int ((u * acc) div sc) + 1"
    using real_of_int_div3 [of "u * acc" sc] by simp
  finally have d: "real_of_int sc * real_of_int cf * x * v
      \<le> real_of_int ((u * acc) div sc) + 1" .
  have b: "0 < ?cf"
    using Suc.prems by simp
  have c: "0 \<le> ?v"
    using Suc.prems assms(2) by simp
  define k where "k = real (Suc m)"
  have k: "k \<noteq> 0"
    by (simp add: k_def)
  have "real_of_int sc * (real_of_int cf * k) * (1 + x / k * v)
      = real_of_int sc * (real_of_int cf * k) + real_of_int sc * real_of_int cf * x * v"
    using k by (simp add: field_simps)
  with d have e: "real_of_int sc * real_of_int ?cf * ?v \<le> real_of_int ?acc"
    by (simp add: k_def)
  have g: "real_of_int ?cf * fact m = real_of_int cf * fact (Suc m)"
    by simp
  have "real_of_int sc * (real_of_int cf * fact (Suc m)) * horner x (Suc m) v
      = real_of_int sc * (real_of_int ?cf * fact m) * horner x m ?v"
    by (simp only: g horner.simps)
  also have "\<dots> \<le> real_of_int (horner_hi sc u m ?cf ?acc)"
    by (rule Suc.IH [OF b c e])
  finally show ?case
    by simp
qed

lemma taylor_le_exp:
  fixes x :: real
  assumes "0 \<le> x"
  shows "(\<Sum>j<n. x ^ j / fact j) \<le> exp x"
proof -
  obtain t where "exp x = (\<Sum>j<n. x ^ j / fact j) + exp t / fact n * x ^ n"
    using Maclaurin_exp_le [of x n] by blast
  moreover have "0 \<le> exp t / fact n * x ^ n"
    using assms by simp
  ultimately show ?thesis
    by simp
qed

lemma exp_le_taylor:
  fixes x :: real
  assumes "0 \<le> x" and "x \<le> X" and "exp X \<le> b"
  shows "exp x \<le> (\<Sum>j<n. x ^ j / fact j) + b * X ^ n / fact n"
proof -
  obtain t where t: "\<bar>t\<bar> \<le> \<bar>x\<bar>"
    and e: "exp x = (\<Sum>j<n. x ^ j / fact j) + exp t / fact n * x ^ n"
    using Maclaurin_exp_le [of x n] by blast
  from t assms have "t \<le> X"
    by simp
  then have "exp t \<le> b"
    using assms(3) by (meson exp_le_cancel_iff order_trans)
  moreover have "x ^ n \<le> X ^ n"
    using assms by (intro power_mono)
  moreover have "0 \<le> b"
    using assms(3) exp_ge_zero [of X] by linarith
  ultimately have "exp t * x ^ n \<le> b * X ^ n"
    using assms(1) by (intro mult_mono) simp_all
  then have "exp t / fact n * x ^ n \<le> b * X ^ n / fact n"
    by (simp add: divide_right_mono)
  with e show ?thesis
    by simp
qed

lemma exp_lo_sound:
  assumes "0 < sc" and "0 \<le> u" and "real_of_int u / real_of_int sc \<le> x"
  shows "real_of_int (exp_lo sc m u) \<le> real_of_int sc * fact m * exp x"
proof -
  have x0: "0 \<le> x"
    using assms by (meson divide_nonneg_pos of_int_0_le_iff of_int_0_less_iff order_trans)
  have "real_of_int (exp_lo sc m u) \<le> real_of_int sc * (real_of_int 1 * fact m) * horner x m 1"
    unfolding exp_lo_def using assms
    by (intro horner_lo_sound) simp_all
  also have "\<dots> = real_of_int sc * fact m * (\<Sum>j<Suc m. x ^ j / fact j)"
    by (simp add: horner_taylor)
  also have "\<dots> \<le> real_of_int sc * fact m * exp x"
    using assms(1) taylor_le_exp [OF x0, of "Suc m"]
    by (intro mult_left_mono) simp_all
  finally show ?thesis .
qed

lemma exp_hi_sound:
  assumes "0 < sc" and "0 \<le> x" and "x \<le> real_of_int u / real_of_int sc"
    and "real_of_int u / real_of_int sc \<le> X" and "exp X \<le> b"
    and "real_of_int sc * b * X ^ Suc m / real (Suc m) \<le> real_of_int rem"
  shows "real_of_int sc * fact m * exp x \<le> real_of_int (exp_hi sc m rem u)"
proof -
  let ?y = "real_of_int u / real_of_int sc"
  have y0: "0 \<le> ?y"
    using assms(2,3) by simp
  have "exp x \<le> exp ?y"
    using assms(3) by simp
  also have "\<dots> \<le> (\<Sum>j<Suc m. ?y ^ j / fact j) + b * X ^ Suc m / fact (Suc m)"
    by (rule exp_le_taylor [OF y0 assms(4,5)])
  finally have "real_of_int sc * fact m * exp x
      \<le> real_of_int sc * fact m * ((\<Sum>j<Suc m. ?y ^ j / fact j) + b * X ^ Suc m / fact (Suc m))"
    using assms(1) by (intro mult_left_mono) simp_all
  also have "\<dots> = real_of_int sc * (real_of_int 1 * fact m) * horner ?y m 1
      + real_of_int sc * b * X ^ Suc m / real (Suc m)"
  proof -
    define k where "k = real (Suc m)"
    define f :: real where "f = fact m"
    have k: "k \<noteq> 0" and f: "f \<noteq> 0"
      by (simp_all add: k_def f_def)
    have "real_of_int sc * f * (b * X ^ Suc m / (k * f)) = real_of_int sc * b * X ^ Suc m / k"
      using k f by (simp add: field_simps)
    then show ?thesis
      unfolding horner_taylor k_def f_def by (simp add: distrib_left)
  qed
  also have "\<dots> \<le> real_of_int (horner_hi sc u m 1 sc) + real_of_int rem"
    using assms(1,6) y0
    by (intro add_mono horner_hi_sound) simp_all
  finally show ?thesis
    by (simp add: exp_hi_def)
qed

subsection \<open>The enclosure of \<open>exp (19 / 4)\<close>\<close>

lemma exp_5_le: "exp (5::real) \<le> 243"
proof -
  have "exp (5::real) = exp 1 ^ 5"
    using exp_of_nat_mult [of 5 "1::real"] by simp
  also have "\<dots> \<le> 3 ^ 5"
    by (intro power_mono exp_le) simp
  finally show ?thesis
    by simp
qed

lemma fact_32: "fact 32 = (263130836933693530167218012160000000 :: real)"
  by (simp add: fact_numeral)

lemma E_lo_eval:
  "E_lo * (2 ^ 44 * 263130836933693530167218012160000000)
     \<le> exp_lo (2 ^ 44) 32 (19 * 2 ^ 42) * 2 ^ 32"
  by code_simp

lemma E_hi_eval:
  "exp_hi (2 ^ 44) 32 2775244563378113408083680180680296925 (19 * 2 ^ 42) * 2 ^ 32
     \<le> E_hi * (2 ^ 44 * 263130836933693530167218012160000000)"
  by code_simp

lemma E_lo_sound: "real_of_int E_lo \<le> 2 ^ 32 * exp (19 / 4)"
proof -
  have "real_of_int (exp_lo (2 ^ 44) 32 (19 * 2 ^ 42))
      \<le> real_of_int (2 ^ 44) * fact 32 * exp (19 / 4)"
    by (rule exp_lo_sound) simp_all
  then have "real_of_int (exp_lo (2 ^ 44) 32 (19 * 2 ^ 42) * 2 ^ 32)
      \<le> (2 ^ 32 * exp (19 / 4)) * (2 ^ 44 * 263130836933693530167218012160000000)"
    by (simp add: fact_32 mult_ac)
  moreover have "real_of_int (E_lo * (2 ^ 44 * 263130836933693530167218012160000000))
      \<le> real_of_int (exp_lo (2 ^ 44) 32 (19 * 2 ^ 42) * 2 ^ 32)"
    using E_lo_eval by (simp only: of_int_le_iff)
  ultimately have "real_of_int E_lo * (2 ^ 44 * 263130836933693530167218012160000000)
      \<le> (2 ^ 32 * exp (19 / 4)) * (2 ^ 44 * 263130836933693530167218012160000000)"
    by simp
  then show ?thesis
    by (rule mult_right_le_imp_le) simp
qed

lemma E_hi_sound: "2 ^ 32 * exp (19 / 4) \<le> real_of_int E_hi"
proof -
  have "exp (19 / 4 :: real) \<le> exp 5"
    by simp
  then have b: "exp (19 / 4 :: real) \<le> 243"
    using exp_5_le by (rule order_trans)
  have r: "real_of_int (2 ^ 44) * 243 * (19 / 4) ^ Suc 32 / real (Suc 32)
      \<le> real_of_int 2775244563378113408083680180680296925"
    by (simp add: power_divide)
  have "real_of_int (2 ^ 44) * fact 32 * exp (19 / 4)
      \<le> real_of_int (exp_hi (2 ^ 44) 32 2775244563378113408083680180680296925 (19 * 2 ^ 42))"
    by (rule exp_hi_sound [where X = "19 / 4" and b = 243, OF _ _ _ _ b r]) simp_all
  then have "(2 ^ 32 * exp (19 / 4)) * (2 ^ 44 * 263130836933693530167218012160000000)
      \<le> real_of_int (exp_hi (2 ^ 44) 32 2775244563378113408083680180680296925 (19 * 2 ^ 42) * 2 ^ 32)"
    by (simp add: fact_32 mult_ac)
  moreover have "real_of_int (exp_hi (2 ^ 44) 32 2775244563378113408083680180680296925
            (19 * 2 ^ 42) * 2 ^ 32)
      \<le> real_of_int (E_hi * (2 ^ 44 * 263130836933693530167218012160000000))"
    using E_hi_eval by (simp only: of_int_le_iff)
  ultimately have "(2 ^ 32 * exp (19 / 4)) * (2 ^ 44 * 263130836933693530167218012160000000)
      \<le> real_of_int E_hi * (2 ^ 44 * 263130836933693530167218012160000000)"
    by simp
  then show ?thesis
    by (rule mult_right_le_imp_le) simp
qed

lemma fact_9: "fact 9 = (362880 :: real)"
  by (simp add: fact_numeral)

lemma exp_half_le: "exp (1 / 2 :: real) \<le> 2"
  using real_exp_bound_lemma [of "1 / 2"] by simp

lemma exp_x_lo_sound:
  assumes "0 \<le> u" and "real_of_int u / real_of_int SC \<le> x - 19 / 4"
  shows "real_of_int (exp_x_lo u) \<le> 2 ^ 64 * 362880 * exp x"
proof -
  have sc: "0 < SC" and scr: "real_of_int SC = 2 ^ 32"
    by (simp_all add: SC_def)
  have 1: "real_of_int (exp_lo SC 9 u) \<le> real_of_int SC * fact 9 * exp (x - 19 / 4)"
    by (rule exp_lo_sound [OF sc assms])
  have e0: "0 \<le> real_of_int E_lo"
    by (simp add: E_lo_def)
  have "real_of_int (exp_x_lo u) = real_of_int E_lo * real_of_int (exp_lo SC 9 u)"
    by (simp add: exp_x_lo_def)
  also have "\<dots> \<le> real_of_int E_lo * (real_of_int SC * fact 9 * exp (x - 19 / 4))"
    using 1 e0 by (rule mult_left_mono)
  also have "\<dots> \<le> (2 ^ 32 * exp (19 / 4)) * (real_of_int SC * fact 9 * exp (x - 19 / 4))"
    using E_lo_sound by (rule mult_right_mono) (simp add: scr)
  also have "\<dots> = 2 ^ 64 * 362880 * (exp (19 / 4) * exp (x - 19 / 4))"
    by (simp add: scr fact_9)
  also have "exp (19 / 4) * exp (x - 19 / 4) = exp x"
    by (simp add: exp_add [symmetric])
  finally show ?thesis .
qed

lemma exp_x_hi_sound:
  assumes "0 \<le> x - 19 / 4" and "x - 19 / 4 \<le> real_of_int u / real_of_int SC"
    and "2 * u \<le> SC"
  shows "2 ^ 64 * 362880 * exp x \<le> real_of_int (exp_x_hi u)"
proof -
  have sc: "0 < SC" and scr: "real_of_int SC = 2 ^ 32"
    by (simp_all add: SC_def)
  have "2 * real_of_int u \<le> real_of_int SC"
    using assms(3) by (metis of_int_le_iff of_int_mult of_int_numeral)
  then have h: "real_of_int u / real_of_int SC \<le> 1 / 2"
    using sc by (simp add: field_simps)
  have r: "real_of_int SC * 2 * (1 / 2) ^ Suc 9 / real (Suc 9) \<le> real_of_int 838861"
    by (simp add: scr power_divide)
  have 1: "real_of_int SC * fact 9 * exp (x - 19 / 4) \<le> real_of_int (exp_hi SC 9 838861 u)"
    by (rule exp_hi_sound [OF sc assms(1,2) h exp_half_le r])
  have "2 ^ 64 * 362880 * exp x = 2 ^ 64 * 362880 * (exp (19 / 4) * exp (x - 19 / 4))"
    by (simp add: exp_add [symmetric])
  also have "\<dots> = (2 ^ 32 * exp (19 / 4)) * (real_of_int SC * fact 9 * exp (x - 19 / 4))"
    by (simp add: scr fact_9)
  also have "\<dots> \<le> real_of_int E_hi * (real_of_int SC * fact 9 * exp (x - 19 / 4))"
    using E_hi_sound by (rule mult_right_mono) (simp add: scr)
  also have "\<dots> \<le> real_of_int E_hi * real_of_int (exp_hi SC 9 838861 u)"
    using 1 by (rule mult_left_mono) (simp add: E_hi_def)
  finally show ?thesis
    by (simp add: exp_x_hi_def)
qed

subsection \<open>The enclosure of the denominators\<close>

lemma arg_lo_bounds:
  assumes "0 < n" and "0 < T"
  shows "real_of_int (arg_lo n T) / real_of_int SC \<le> xarg n T - 19 / 4"
    and "xarg n T - 19 / 4 \<le> real_of_int (arg_lo n T + 1) / real_of_int SC"
proof -
  let ?num = "SC * (4 * 272115870842319 - 19 * 94565000 * n * T)"
  let ?den = "4 * 94565000 * n * T"
  have sc: "0 < real_of_int SC"
    by (simp add: SC_def)
  have nT: "0 < real_of_int n" "0 < real_of_int T"
    using assms by simp_all
  have q: "real_of_int ?num / real_of_int ?den = real_of_int SC * (xarg n T - 19 / 4)"
    using nT by (simp add: xarg_def field_simps)
  have "real_of_int (?num div ?den) \<le> real_of_int ?num / real_of_int ?den"
    by (rule real_of_int_div4)
  then have "real_of_int (arg_lo n T) \<le> real_of_int SC * (xarg n T - 19 / 4)"
    by (simp only: q arg_lo_def)
  then have "real_of_int (arg_lo n T) \<le> (xarg n T - 19 / 4) * real_of_int SC"
    by (simp only: mult.commute)
  then show "real_of_int (arg_lo n T) / real_of_int SC \<le> xarg n T - 19 / 4"
    using sc by (simp only: pos_divide_le_eq)
  have "real_of_int ?num / real_of_int ?den - real_of_int (?num div ?den) \<le> 1"
    by (rule real_of_int_div3)
  then have "real_of_int SC * (xarg n T - 19 / 4) - real_of_int (arg_lo n T) \<le> 1"
    by (simp only: q arg_lo_def)
  then have "(xarg n T - 19 / 4) * real_of_int SC \<le> real_of_int (arg_lo n T + 1)"
    by (simp add: mult.commute)
  then show "xarg n T - 19 / 4 \<le> real_of_int (arg_lo n T + 1) / real_of_int SC"
    using sc by (simp only: pos_le_divide_eq)
qed

lemma den_lo_sound:
  assumes "0 < n" and "0 < T" and "0 \<le> arg_lo n T"
  shows "real_of_int (den_lo n T)
      \<le> 2 ^ 64 * 362880 * (real_of_int n ^ 5 * (exp (xarg n T) - 1))"
proof -
  define K :: real where "K = 2 ^ 64 * 362880"
  have "real_of_int (exp_x_lo (arg_lo n T)) \<le> K * exp (xarg n T)"
    unfolding K_def
    by (rule exp_x_lo_sound [OF assms(3) arg_lo_bounds(1) [OF assms(1,2)]])
  then have "real_of_int (exp_x_lo (arg_lo n T)) - K \<le> K * exp (xarg n T) - K"
    by simp
  then have "real_of_int n ^ 5 * (real_of_int (exp_x_lo (arg_lo n T)) - K)
      \<le> real_of_int n ^ 5 * (K * exp (xarg n T) - K)"
    using assms(1) by (intro mult_left_mono) simp_all
  also have "\<dots> = K * (real_of_int n ^ 5 * (exp (xarg n T) - 1))"
    by (simp add: algebra_simps)
  finally show ?thesis
    by (simp add: den_lo_def K_def)
qed

lemma den_hi_sound:
  assumes "0 < n" and "0 < T" and "0 \<le> arg_lo n T" and "2 * (arg_lo n T + 1) \<le> SC"
  shows "2 ^ 64 * 362880 * (real_of_int n ^ 5 * (exp (xarg n T) - 1))
      \<le> real_of_int (den_hi n T)"
proof -
  define K :: real where "K = 2 ^ 64 * 362880"
  have "0 \<le> real_of_int (arg_lo n T) / real_of_int SC"
    using assms(3) by (simp add: SC_def)
  then have x0: "0 \<le> xarg n T - 19 / 4"
    using arg_lo_bounds(1) [OF assms(1,2)] by (rule order_trans)
  have "K * exp (xarg n T) \<le> real_of_int (exp_x_hi (arg_lo n T + 1))"
    unfolding K_def
    by (rule exp_x_hi_sound [OF x0 arg_lo_bounds(2) [OF assms(1,2)] assms(4)])
  then have "K * exp (xarg n T) - K \<le> real_of_int (exp_x_hi (arg_lo n T + 1)) - K"
    by simp
  then have le: "real_of_int n ^ 5 * (K * exp (xarg n T) - K)
      \<le> real_of_int n ^ 5 * (real_of_int (exp_x_hi (arg_lo n T + 1)) - K)"
    using assms(1) by (intro mult_left_mono) simp_all
  have "K * (real_of_int n ^ 5 * (exp (xarg n T) - 1))
      = real_of_int n ^ 5 * (K * exp (xarg n T) - K)"
    by (simp add: algebra_simps)
  also note le
  also have "real_of_int n ^ 5 * (real_of_int (exp_x_hi (arg_lo n T + 1)) - K)
      = real_of_int (den_hi n T)"
    by (simp add: den_hi_def K_def)
  finally show ?thesis
    unfolding K_def .
qed

section \<open>The radiance function in the range of doubles\<close>

text \<open>
  The exponent of \<open>planck\<close> stays between 0.35 and 693 on the sampled wavelengths at
  the temperatures of the slider, where the exponential neither overflows nor rounds to
  1: there \<open>planck_double\<close> and \<open>planck\<close> agree. At 10 nm and 2000 K the exponent is
  above 718 and the exponential overflows; at 500 nm and \<open>10\<^sup>3\<^sup>0\<close> K the exponent is below
  \<open>1 / 2\<^sup>5\<^sup>4\<close> and the exponential rounds to 1.
\<close>

lemma exp_19_4_le: "exp (19 / 4 :: real) \<le> 2 ^ 7"
proof -
  have "2 ^ 32 * exp (19 / 4 :: real) \<le> real_of_int E_hi"
    by (rule E_hi_sound)
  also have "\<dots> \<le> 2 ^ 32 * 2 ^ 7"
    by (simp add: E_hi_def)
  finally show ?thesis
    by (simp only: mult_le_cancel_left_pos zero_less_power zero_less_numeral)
qed

lemma exp_19_4_pow5_ge: "2 ^ 34 \<le> exp (19 / 4 :: real) ^ 5"
proof -
  have 1: "real_of_int E_lo / 2 ^ 32 \<le> exp (19 / 4)"
    using E_lo_sound by (simp add: field_simps)
  have "(2 ^ 34 :: real) \<le> (real_of_int E_lo / 2 ^ 32) ^ 5"
    by (simp add: E_lo_def power_divide)
  also have "\<dots> \<le> exp (19 / 4) ^ 5"
    using 1 by (rule power_mono) (simp add: E_lo_def)
  finally show ?thesis .
qed

lemma exp_no_overflow:
  fixes x :: real
  assumes "x \<le> 693"
  shows "exp x < 2 ^ 1024 - 2 ^ 970"
proof -
  have "exp x \<le> exp (of_nat 146 * (19 / 4))"
    using assms by simp
  also have "\<dots> = exp (19 / 4) ^ 146"
    by (rule exp_of_nat_mult)
  also have "\<dots> \<le> (2 ^ 7) ^ 146"
    using exp_19_4_le by (rule power_mono) simp
  also have "\<dots> = (2 :: real) ^ 1022"
    by (simp only: power_mult [symmetric]) simp
  also have "\<dots> < 2 ^ 1024 - 2 ^ 970"
    by simp
  finally show ?thesis .
qed

lemma exp_19_4_ge: "2 ^ 6 \<le> exp (19 / 4 :: real)"
proof -
  have "(2 ^ 32 * 2 ^ 6 :: real) \<le> real_of_int E_lo"
    by (simp add: E_lo_def)
  also have "\<dots> \<le> 2 ^ 32 * exp (19 / 4)"
    by (rule E_lo_sound)
  finally show ?thesis
    by (simp only: mult_le_cancel_left_pos zero_less_power zero_less_numeral)
qed

lemma exp_overflow:
  fixes x :: real
  assumes "718 \<le> x"
  shows "2 ^ 1024 - 2 ^ 970 \<le> exp x"
proof -
  have "(2 :: real) ^ 1024 - 2 ^ 970 \<le> (2 ^ 34) ^ 30 * 2 ^ 6"
    by simp
  also have "\<dots> \<le> (exp (19 / 4) ^ 5) ^ 30 * exp (19 / 4)"
    using exp_19_4_pow5_ge exp_19_4_ge by (intro mult_mono power_mono) simp_all
  also have "\<dots> = exp (19 / 4) ^ 151"
    by (simp only: power_mult [symmetric] power_Suc2 [symmetric]) simp
  also have "\<dots> = exp (of_nat 151 * (19 / 4))"
    by (rule exp_of_nat_mult [symmetric])
  also have "\<dots> \<le> exp x"
    using assms by simp
  finally show ?thesis .
qed

lemma exponent_supported:
  assumes "1 / 10 ^ 8 \<le> wav" and "wav \<le> 2 / 10 ^ 6" and "2100 \<le> T" and "T \<le> 20000"
  shows "35 / 100 \<le> h * c / (wav * B * T)" and "h * c / (wav * B * T) \<le> 693"
proof -
  have w: "0 < wav" and t: "0 < T"
    using assms by simp_all
  have lo: "1 / 10 ^ 8 * 2100 \<le> wav * T"
    using assms by (intro mult_mono) simp_all
  have hi: "wav * T \<le> 2 / 10 ^ 6 * 20000"
    using assms w by (intro mult_mono) simp_all
  have wt: "0 < wav * T"
    using w t by simp
  have e: "h * c / (wav * B * T) = (h * c / B) / (wav * T)"
    by (simp add: mult_ac)
  have k: "h * c / B = 272115870842319 / 18913000000000000"
    by (simp add: h_def c_def B_def)
  show "35 / 100 \<le> h * c / (wav * B * T)"
    unfolding e k using hi wt by (simp add: field_simps)
  show "h * c / (wav * B * T) \<le> 693"
    unfolding e k using lo wt by (simp add: field_simps)
qed

lemma planck_double_supported:
  assumes "1 / 10 ^ 8 \<le> wav" and "wav \<le> 2 / 10 ^ 6" and "2100 \<le> T" and "T \<le> 20000"
  shows "planck_double wav T = planck wav T"
proof -
  let ?x = "h * c / (wav * B * T)"
  note x = exponent_supported [OF assms]
  have "exp ?x < 2 ^ 1024 - 2 ^ 970"
    by (rule exp_no_overflow [OF x(2)])
  moreover have "1 + 1 / 2 ^ 53 < exp ?x"
  proof -
    have "(1 + 1 / 2 ^ 53 :: real) < 1 + 35 / 100"
      by simp
    also have "\<dots> \<le> 1 + ?x"
      using x(1) by simp
    also have "\<dots> \<le> exp ?x"
      by (rule exp_ge_add_one_self)
    finally show ?thesis .
  qed
  ultimately have "np_exp ?x = Num (exp ?x)"
    by (simp add: np_exp_def)
  then show ?thesis
    by (simp add: planck_double_def planck_def Let_def)
qed

lemma planck_double_overflow: "planck_double (1 / 10 ^ 8) 2000 = Inr 0"
proof -
  have x: "h * c / (1 / 10 ^ 8 * B * 2000) = 272115870842319 / 378260000000"
    by (simp add: h_def c_def B_def)
  have "np_exp (h * c / (1 / 10 ^ 8 * B * 2000)) = Inf"
    unfolding x np_exp_def using exp_overflow [of "272115870842319 / 378260000000"] by simp
  moreover have "1 / 10 ^ 8 * B * 2000 \<noteq> 0"
    by (simp add: B_def)
  ultimately show ?thesis
    by (simp add: planck_double_def Let_def)
qed

lemma planck_double_absorbed: "planck_double (5 / 10 ^ 7) (10 ^ 30) = Inl ZeroDivisionError"
proof -
  define x :: real where "x = h * c / (5 / 10 ^ 7 * B * 10 ^ 30)"
  have x: "0 \<le> x" "x \<le> 1 / 2 ^ 54"
    by (simp_all add: x_def h_def c_def B_def)
  have "exp x \<le> 1 + 2 * x"
    using x by (intro real_exp_bound_lemma) simp_all
  also have "\<dots> \<le> 1 + 1 / 2 ^ 53"
    using x(2) by simp
  finally have u: "exp x \<le> 1 + 1 / 2 ^ 53" .
  have "(1 :: real) - 1 / 2 ^ 54 \<le> 1"
    by simp
  also have "\<dots> \<le> exp x"
    using x(1) by simp
  finally have l: "1 - 1 / 2 ^ 54 \<le> exp x" .
  have "exp x < 2 ^ 1024 - 2 ^ 970"
    using x by (intro exp_no_overflow) simp
  with u l have "np_exp x = Num 1"
    by (simp add: np_exp_def)
  moreover have "5 / 10 ^ 7 * B * 10 ^ 30 \<noteq> 0"
    by (simp add: B_def)
  ultimately show ?thesis
    unfolding planck_double_def Let_def x_def [symmetric] by simp
qed

text \<open>
  C1 as stated covers every wavelength and temperature above 0. It fails at 10 nm and
  2000 K: the double exponential overflows and \<open>planck\<close> returns \<open>0.0\<close>, while the
  value of the formula is above 0.
\<close>

theorem planck_formula_overflow:
  "planck_double (1 / 10 ^ 8) 2000 = Inr 0
   \<and> planck_double (1 / 10 ^ 8) 2000 \<noteq>
      Inr ((2 * (6.62607015 / 10 ^ 34) * 299792458 ^ 2) /
           ((1 / 10 ^ 8) ^ 5 * (exp ((6.62607015 / 10 ^ 34) * 299792458 /
                            ((1 / 10 ^ 8) * (1.380649 / 10 ^ 23) * 2000)) - 1)))"
proof -
  have d: "0 < (1 / 10 ^ 8) ^ 5 * (exp (h * c / (1 / 10 ^ 8 * B * 2000)) - 1)"
    by (rule denominator_pos) simp_all
  have "0 < 2 * h * c ^ 2"
    using h_pos c_pos by simp
  from this d
  have "0 < 2 * h * c ^ 2 / ((1 / 10 ^ 8) ^ 5 * (exp (h * c / (1 / 10 ^ 8 * B * 2000)) - 1))"
    by (rule divide_pos_pos)
  then have "(0 :: real) < (2 * (6.62607015 / 10 ^ 34) * 299792458 ^ 2) /
           ((1 / 10 ^ 8) ^ 5 * (exp ((6.62607015 / 10 ^ 34) * 299792458 /
                            ((1 / 10 ^ 8) * (1.380649 / 10 ^ 23) * 2000)) - 1))"
    by (simp only: h_def c_def B_def)
  with planck_double_overflow show ?thesis
    by simp
qed

text \<open>
  C1, amended: for every wavelength between \<open>1e-8\<close> and \<open>2e-6\<close> and every temperature
  between 2100 and 20000, \<open>planck\<close> in the range of doubles returns
  \<open>2 h c\<^sup>2 / (wav\<^sup>5 (e\<^bsup>h c / (wav k T)\<^esup> - 1))\<close> with \<open>h = 6.62607015e-34\<close>,
  \<open>c = 299792458\<close> and the Boltzmann constant \<open>k = 1.380649e-23\<close>, which is not the
  value \<open>1.480649e-23\<close> of the notebook's text.
\<close>

theorem planck_double_formula:
  assumes "1 / 10 ^ 8 \<le> wav" and "wav \<le> 2 / 10 ^ 6" and "2100 \<le> T" and "T \<le> 20000"
  shows "planck_double wav T =
      Inr ((2 * (6.62607015 / 10 ^ 34) * 299792458 ^ 2) /
           (wav ^ 5 * (exp ((6.62607015 / 10 ^ 34) * 299792458 /
                            (wav * (1.380649 / 10 ^ 23) * T)) - 1)))
    \<and> B \<noteq> 1.480649 / 10 ^ 23"
proof
  have w: "0 < wav" and t: "0 < T"
    using assms by simp_all
  show "planck_double wav T =
      Inr ((2 * (6.62607015 / 10 ^ 34) * 299792458 ^ 2) /
           (wav ^ 5 * (exp ((6.62607015 / 10 ^ 34) * 299792458 /
                            (wav * (1.380649 / 10 ^ 23) * T)) - 1)))"
    unfolding planck_double_supported [OF assms]
    using planck_eq [OF w t] by (simp only: h_def c_def B_def)
  show "B \<noteq> 1.480649 / 10 ^ 23"
    by (simp add: B_def)
qed

theorem planck_double_formula_witness:
  "planck_double (5 / 10 ^ 7) 3000 =
      Inr ((2 * (6.62607015 / 10 ^ 34) * 299792458 ^ 2) /
           ((5 / 10 ^ 7) ^ 5 * (exp ((6.62607015 / 10 ^ 34) * 299792458 /
                            ((5 / 10 ^ 7) * (1.380649 / 10 ^ 23) * 3000)) - 1)))"
proof -
  have "(1 / 10 ^ 8 :: real) \<le> 5 / 10 ^ 7" and "(5 / 10 ^ 7 :: real) \<le> 2 / 10 ^ 6"
    and "(2100 :: real) \<le> 3000" and "(3000 :: real) \<le> 20000"
    by simp_all
  from planck_double_formula [OF this] show ?thesis
    by blast
qed

section \<open>The radiance on both sides of its peak\<close>

text \<open>
  The derivative of \<open>denom a\<close> at \<open>s\<close> is \<open>s\<^sup>4 * ((5 - x) * exp x - 5)\<close> with
  \<open>x = a / s\<close>. The factor \<open>(5 - x) * exp x - 5\<close> is positive for \<open>0 < x \<le> 4.965\<close>
  and negative for \<open>x \<ge> 4.9653\<close>; its zero, the peak of Planck's law, lies between.
\<close>

lemma exp_4965_eval: "5000 * (2 ^ 64 * 362880) < 35 * exp_x_lo 923417968"
  by code_simp

lemma exp_49653_eval: "347 * exp_x_hi 924706459 < 50000 * (2 ^ 64 * 362880)"
  by code_simp

lemma exp_4965_lower: "5 < (5 - 4965 / 1000) * exp (4965 / 1000 :: real)"
proof -
  define K :: real where "K = 2 ^ 64 * 362880"
  have K: "0 < K"
    by (simp add: K_def)
  have "real_of_int (exp_x_lo 923417968) \<le> K * exp (4965 / 1000)"
    unfolding K_def by (rule exp_x_lo_sound) (simp_all add: SC_def)
  moreover have "real_of_int (5000 * (2 ^ 64 * 362880)) < real_of_int (35 * exp_x_lo 923417968)"
    using exp_4965_eval by (simp only: of_int_less_iff)
  then have "5000 * K < 35 * real_of_int (exp_x_lo 923417968)"
    by (simp add: K_def)
  ultimately have "5000 * K < 35 * (K * exp (4965 / 1000))"
    by linarith
  then have "K * 5000 < K * (35 * exp (4965 / 1000))"
    by (simp add: mult_ac)
  then have "5000 < 35 * exp (4965 / 1000 :: real)"
    using K by (simp only: mult_less_cancel_left_pos)
  then show ?thesis
    by simp
qed

lemma exp_49653_upper: "(5 - 49653 / 10000) * exp (49653 / 10000 :: real) < 5"
proof -
  define K :: real where "K = 2 ^ 64 * 362880"
  have K: "0 < K"
    by (simp add: K_def)
  have "K * exp (49653 / 10000) \<le> real_of_int (exp_x_hi 924706459)"
    unfolding K_def by (rule exp_x_hi_sound) (simp_all add: SC_def)
  moreover have "real_of_int (347 * exp_x_hi 924706459) < real_of_int (50000 * (2 ^ 64 * 362880))"
    using exp_49653_eval by (simp only: of_int_less_iff)
  then have "347 * real_of_int (exp_x_hi 924706459) < 50000 * K"
    by (simp add: K_def)
  ultimately have "347 * (K * exp (49653 / 10000)) < 50000 * K"
    by linarith
  then have "K * (347 * exp (49653 / 10000)) < K * 50000"
    by (simp add: mult_ac)
  then have "347 * exp (49653 / 10000 :: real) < 50000"
    using K by (simp only: mult_less_cancel_left_pos)
  then show ?thesis
    by simp
qed

lemma psi_pos:
  fixes x :: real
  assumes "0 < x" and "x \<le> 4965 / 1000"
  shows "5 < (5 - x) * exp x"
proof (cases "x \<le> 4")
  case True
  have "0 \<le> (4 - x) * (x + 1)"
    using assms(1) True by simp
  then have "0 < x * (((4 - x) * (x + 1) + 4) / 2)"
    using assms(1) by (intro mult_pos_pos) simp_all
  then have "5 < 5 + x * (((4 - x) * (x + 1) + 4) / 2)"
    by simp
  also have "\<dots> = (5 - x) * (1 + x + x\<^sup>2 / 2)"
    by (simp add: field_simps power2_eq_square)
  also have "\<dots> \<le> (5 - x) * exp x"
    using True assms(1) exp_lower_Taylor_quadratic [of x]
    by (intro mult_left_mono) simp_all
  finally show ?thesis .
next
  case False
  define p :: real where "p = 4965 / 1000"
  define s where "s = p - x"
  have p: "4 \<le> p" "p < 5"
    by (simp_all add: p_def)
  have s: "0 \<le> s" "s \<le> p - 4"
    using False assms(2) by (simp_all add: s_def p_def)
  have x: "x = p + (- s)"
    by (simp add: s_def)
  have "1 - s \<le> exp (- s)"
    using exp_ge_add_one_self [of "- s"] by simp
  then have "exp p * (1 - s) \<le> exp p * exp (- s)"
    by (intro mult_left_mono) simp_all
  then have e: "exp p * (1 - s) \<le> exp x"
    unfolding x exp_add .
  have "0 \<le> s * (p - 4 - s)"
    using s by simp
  then have "5 - p \<le> (5 - x) * (1 - s)"
    unfolding x by (simp add: algebra_simps)
  then have "(5 - p) * exp p \<le> ((5 - x) * (1 - s)) * exp p"
    by (intro mult_right_mono) simp_all
  also have "\<dots> = (5 - x) * (exp p * (1 - s))"
    by (simp only: mult_ac)
  also have "\<dots> \<le> (5 - x) * exp x"
    using e assms(2) by (intro mult_left_mono) simp_all
  finally show ?thesis
    using exp_4965_lower unfolding p_def by linarith
qed

lemma psi_neg:
  fixes x :: real
  assumes "49653 / 10000 \<le> x"
  shows "(5 - x) * exp x < 5"
proof (cases "5 \<le> x")
  case True
  then have "(5 - x) * exp x \<le> 0"
    by (simp add: mult_nonpos_nonneg)
  then show ?thesis
    by simp
next
  case False
  define q :: real where "q = 49653 / 10000"
  define s where "s = x - q"
  have q: "4 \<le> q" "q < 5"
    by (simp_all add: q_def)
  have s: "0 \<le> s" "s < 1"
    using False assms by (simp_all add: s_def q_def)
  have x: "x = q + s"
    by (simp add: s_def)
  have "1 - s \<le> exp (- s)"
    using exp_ge_add_one_self [of "- s"] by simp
  then have 1: "(1 - s) * exp s \<le> 1"
    by (simp add: exp_minus field_simps)
  have "0 \<le> s * (q - 4)"
    using s q by simp
  then have "5 - x \<le> (5 - q) * (1 - s)"
    unfolding x by (simp add: algebra_simps)
  then have "(5 - x) * exp s \<le> ((5 - q) * (1 - s)) * exp s"
    by (intro mult_right_mono) simp_all
  also have "\<dots> = (5 - q) * ((1 - s) * exp s)"
    by (simp only: mult.assoc)
  also have "\<dots> \<le> (5 - q) * 1"
    using 1 q by (intro mult_left_mono) simp_all
  finally have "(5 - x) * exp s \<le> 5 - q"
    by simp
  then have "((5 - x) * exp s) * exp q \<le> (5 - q) * exp q"
    by (intro mult_right_mono) simp_all
  moreover have "(5 - x) * exp x = ((5 - x) * exp s) * exp q"
    unfolding x by (simp add: exp_add mult_ac)
  ultimately show ?thesis
    using exp_49653_upper unfolding q_def by linarith
qed

lemma denom_deriv:
  assumes "s \<noteq> 0"
  shows "(denom a has_real_derivative s ^ 4 * (5 - (5 - a / s) * exp (a / s)) * (- 1)) (at s)"
proof -
  have "((\<lambda>s. s ^ 5 * (exp (a / s) - 1)) has_real_derivative
      5 * s ^ 4 * (exp (a / s) - 1) + s ^ 5 * (exp (a / s) * (- a / s\<^sup>2))) (at s)"
    using assms by (auto intro!: derivative_eq_intros simp: power2_eq_square)
  moreover have "s ^ 5 * (exp (a / s) * (- a / s\<^sup>2)) = - (s ^ 4 * (a / s * exp (a / s)))"
    using assms by (simp add: field_simps eval_nat_numeral)
  ultimately show ?thesis
    unfolding denom_def [abs_def] by (simp add: algebra_simps)
qed

lemma denom_increasing:
  assumes "0 < a" and "0 < s1" and "s1 < s2" and "a / s1 \<le> 4965 / 1000"
  shows "denom a s1 < denom a s2"
proof (rule DERIV_pos_imp_increasing [OF assms(3)])
  fix s
  assume s: "s1 \<le> s" "s \<le> s2"
  then have s0: "0 < s"
    using assms(2) by simp
  have "a / s \<le> a / s1"
    using s(1) assms(1,2) by (simp add: frac_le)
  then have "a / s \<le> 4965 / 1000"
    using assms(4) by (rule order_trans)
  moreover have "0 < a / s"
    using assms(1) s0 by simp
  ultimately have "5 < (5 - a / s) * exp (a / s)"
    by (intro psi_pos)
  then have "0 < s ^ 4 * ((5 - a / s) * exp (a / s) - 5)"
    using s0 by simp
  then have "0 < s ^ 4 * (5 - (5 - a / s) * exp (a / s)) * (- 1)"
    by (simp add: algebra_simps)
  moreover have "(denom a has_real_derivative s ^ 4 * (5 - (5 - a / s) * exp (a / s)) * (- 1)) (at s)"
    using s0 by (intro denom_deriv) simp
  ultimately show "\<exists>y. (denom a has_real_derivative y) (at s) \<and> 0 < y"
    by blast
qed

lemma denom_decreasing:
  assumes "0 < a" and "0 < s1" and "s1 < s2" and "49653 / 10000 \<le> a / s2"
  shows "denom a s2 < denom a s1"
proof (rule DERIV_neg_imp_decreasing [OF assms(3)])
  fix s
  assume s: "s1 \<le> s" "s \<le> s2"
  then have s0: "0 < s"
    using assms(2) by simp
  have "a / s2 \<le> a / s"
    using s(2) assms(1) s0 by (simp add: frac_le)
  with assms(4) have "49653 / 10000 \<le> a / s"
    by (rule order_trans)
  then have "(5 - a / s) * exp (a / s) < 5"
    by (intro psi_neg)
  then have "0 < s ^ 4 * (5 - (5 - a / s) * exp (a / s))"
    using s0 by simp
  then have "s ^ 4 * (5 - (5 - a / s) * exp (a / s)) * (- 1) < 0"
    by simp
  moreover have "(denom a has_real_derivative s ^ 4 * (5 - (5 - a / s) * exp (a / s)) * (- 1)) (at s)"
    using s0 by (intro denom_deriv) simp
  ultimately show "\<exists>y. (denom a has_real_derivative y) (at s) \<and> y < 0"
    by blast
qed

subsection \<open>From the denominator to \<open>planck\<close>\<close>

lemma x_scale_pos: "0 < T \<Longrightarrow> 0 < x_scale T"
  by (simp add: x_scale_def)

lemma denom_pos: "0 < a \<Longrightarrow> 0 < s \<Longrightarrow> 0 < denom a s"
  by (simp add: denom_def)

lemma xarg_x_scale: "xarg n T = x_scale T / of_int n"
  by (simp add: xarg_def x_scale_def)

lemma planck_lamda:
  assumes "i < 398" and "0 < T"
  shows "planck (lamda ! i) (of_int T) = Inr (rad T i)"
proof -
  have w: "lamda ! i = (real i + 2) * (5 / 10 ^ 9)"
    using assms(1) by (simp add: lamda_nth algebra_simps)
  have w0: "0 < lamda ! i"
    unfolding w by simp
  have T0: "0 < (of_int T :: real)"
    using assms(2) by simp
  have cst: "h * c / (B * (5 / 10 ^ 9)) = 272115870842319 / 94565000"
    by (simp add: h_def c_def B_def)
  have "h * c / (lamda ! i * B * of_int T)
      = h * c / (B * (5 / 10 ^ 9)) / ((real i + 2) * of_int T)"
    unfolding w by (simp only: divide_divide_eq_left mult_ac)
  also have "\<dots> = x_scale T / (real i + 2)"
    unfolding cst x_scale_def by (simp only: divide_divide_eq_left mult_ac)
  finally have x: "h * c / (lamda ! i * B * of_int T) = x_scale T / (real i + 2)" .
  have "lamda ! i ^ 5 = (5 / 10 ^ 9) ^ 5 * (real i + 2) ^ 5"
    unfolding w by (simp only: power_mult_distrib mult.commute)
  then show ?thesis
    unfolding planck_eq [OF w0 T0] x rad_def denom_def by (simp only: mult.assoc)
qed

lemma divide_less_swap:
  fixes N A D :: real
  assumes "0 < N" and "0 < A" and "0 < D"
  shows "N / A < N / D \<longleftrightarrow> D < A"
  using assms by (simp add: field_simps)

lemma rad_less_iff:
  assumes "0 < T"
  shows "rad T i < rad T j \<longleftrightarrow> denom (x_scale T) (real j + 2) < denom (x_scale T) (real i + 2)"
proof -
  have n: "0 < 2 * h * c ^ 2"
    using h_pos c_pos by simp
  have Fi: "0 < denom (x_scale T) (real i + 2)" and Fj: "0 < denom (x_scale T) (real j + 2)"
    using x_scale_pos [OF assms] by (simp_all add: denom_pos)
  have k: "0 < ((5 / 10 ^ 9) ^ 5 :: real)"
    by simp
  have "rad T i < rad T j \<longleftrightarrow>
      (5 / 10 ^ 9) ^ 5 * denom (x_scale T) (real j + 2) < (5 / 10 ^ 9) ^ 5 * denom (x_scale T) (real i + 2)"
    unfolding rad_def
    by (rule divide_less_swap [OF n mult_pos_pos [OF k Fi] mult_pos_pos [OF k Fj]])
  then show ?thesis
    using k by (simp only: mult_less_cancel_left_pos)
qed

lemma rad_increasing_before:
  assumes T: "0 < T" and n0: "0 < n0"
    and q: "49653 * (94565000 * n0 * T) \<le> 272115870842319 * 10000"
    and ij: "i < j" and j: "int j + 2 \<le> n0"
  shows "rad T i < rad T j"
proof -
  have a: "0 < x_scale T"
    by (rule x_scale_pos [OF T])
  have "real_of_int (49653 * (94565000 * n0 * T)) \<le> real_of_int (272115870842319 * 10000)"
    using q by (simp only: of_int_le_iff)
  then have "49653 / 10000 \<le> x_scale T / real_of_int n0"
    using T n0 by (simp add: x_scale_def field_simps)
  also have "real j + 2 \<le> real_of_int n0"
    using j by (metis of_int_le_iff of_int_add of_int_of_nat_eq of_int_numeral)
  then have "x_scale T / real_of_int n0 \<le> x_scale T / (real j + 2)"
    using a by (intro frac_le) simp_all
  finally have "49653 / 10000 \<le> x_scale T / (real j + 2)" .
  then have "denom (x_scale T) (real j + 2) < denom (x_scale T) (real i + 2)"
    using a ij by (intro denom_decreasing) simp_all
  then show ?thesis
    by (simp only: rad_less_iff [OF T])
qed

lemma rad_decreasing_after:
  assumes T: "0 < T" and n1: "0 < n1"
    and p: "272115870842319 * 1000 \<le> 4965 * (94565000 * n1 * T)"
    and ij: "i < j" and i: "n1 \<le> int i + 2"
  shows "rad T j < rad T i"
proof -
  have a: "0 < x_scale T"
    by (rule x_scale_pos [OF T])
  have n1r: "0 < real_of_int n1"
    using n1 by simp
  have "real_of_int n1 \<le> real i + 2"
    using i by (metis of_int_le_iff of_int_add of_int_of_nat_eq of_int_numeral)
  then have "x_scale T / (real i + 2) \<le> x_scale T / real_of_int n1"
    using a n1r by (intro frac_le) simp_all
  also have "real_of_int (272115870842319 * 1000) \<le> real_of_int (4965 * (94565000 * n1 * T))"
    using p by (simp only: of_int_le_iff)
  then have "x_scale T / real_of_int n1 \<le> 4965 / 1000"
    using T n1 by (simp add: x_scale_def field_simps)
  finally have "x_scale T / (real i + 2) \<le> 4965 / 1000" .
  then have "denom (x_scale T) (real i + 2) < denom (x_scale T) (real j + 2)"
    using a ij by (intro denom_increasing) simp_all
  then show ?thesis
    by (simp only: rad_less_iff [OF T])
qed

lemma den_compare:
  assumes T: "0 < T" and n: "0 < n" "0 < n'"
    and lo: "0 \<le> arg_lo n T" and lo': "0 \<le> arg_lo n' T" "2 * (arg_lo n' T + 1) \<le> SC"
    and d: "den_hi n' T < den_lo n T"
  shows "denom (x_scale T) (real_of_int n') < denom (x_scale T) (real_of_int n)"
proof -
  define K :: real where "K = 2 ^ 64 * 362880"
  have K: "0 < K"
    by (simp add: K_def)
  have "K * denom (x_scale T) (real_of_int n') \<le> real_of_int (den_hi n' T)"
    unfolding K_def denom_def xarg_x_scale [symmetric]
    by (rule den_hi_sound [OF n(2) T lo'])
  also have "\<dots> < real_of_int (den_lo n T)"
    using d by (simp only: of_int_less_iff)
  also have "\<dots> \<le> K * denom (x_scale T) (real_of_int n)"
    unfolding K_def denom_def xarg_x_scale [symmetric]
    by (rule den_lo_sound [OF n(1) T lo])
  finally show ?thesis
    using K by (simp only: mult_less_cancel_left_pos)
qed

lemma peak_distance:
  assumes T: "0 < T" and m: "m < 398"
    and d: "\<bar>5 * (int m + 2) * T - 2898000\<bar> \<le> 5 * T"
  shows "\<bar>lamda ! m - 2.898 / 10 ^ 3 / of_int T\<bar> \<le> 5 / 10 ^ 9"
proof -
  have T0: "0 < (of_int T :: real)"
    using T by simp
  have "real_of_int \<bar>5 * (int m + 2) * T - 2898000\<bar> \<le> real_of_int (5 * T)"
    using d by (simp only: of_int_le_iff)
  then have e: "\<bar>5 * (real m + 2) * of_int T - 2898000\<bar> \<le> 5 * of_int T"
    by simp
  have "lamda ! m - 2.898 / 10 ^ 3 / of_int T
      = (5 * (real m + 2) * of_int T - 2898000) / (10 ^ 9 * of_int T)"
    using T0 m by (simp add: lamda_nth field_simps)
  then have "\<bar>lamda ! m - 2.898 / 10 ^ 3 / of_int T\<bar>
      = \<bar>5 * (real m + 2) * of_int T - 2898000\<bar> / (10 ^ 9 * of_int T)"
    using T0 by (simp add: abs_mult)
  also have "\<dots> \<le> (5 * of_int T) / (10 ^ 9 * of_int T)"
    using e T0 by (intro divide_right_mono) simp_all
  also have "\<dots> = 5 / 10 ^ 9"
    using T0 by simp
  finally show ?thesis .
qed

section \<open>The peak among the samples\<close>

lemma peak_upper:
  assumes T: "0 < T" and n0: "2 \<le> n0" "n0 + 1 \<le> 399"
    and q: "49653 * (94565000 * n0 * T) \<le> 272115870842319 * 10000"
    and p: "272115870842319 * 1000 \<le> 4965 * (94565000 * (n0 + 1) * T)"
    and cmp: "denom (x_scale T) (real_of_int (n0 + 1)) < denom (x_scale T) (real_of_int n0)"
    and m: "m = nat (n0 - 1)"
  shows "m < 398"
    and "\<And>i j. i < j \<Longrightarrow> j \<le> m \<Longrightarrow> rad T i < rad T j"
    and "\<And>i j. m \<le> i \<Longrightarrow> i < j \<Longrightarrow> rad T j < rad T i"
proof -
  have im: "int m = n0 - 1"
    using n0 m by simp
  show "m < 398"
    using n0 im by linarith
  have m1: "1 \<le> m"
    using n0 im by linarith
  have "int (m - 1) + 2 = n0"
    using m1 im by linarith
  from arg_cong [OF this, of real_of_int] have r1: "real (m - 1) + 2 = real_of_int n0"
    by simp
  have "int m + 2 = n0 + 1"
    using im by linarith
  from arg_cong [OF this, of real_of_int] have r2: "real m + 2 = real_of_int (n0 + 1)"
    by simp
  have step: "rad T (m - 1) < rad T m"
    unfolding rad_less_iff [OF T] r1 r2 by (rule cmp)
  have before: "rad T i < rad T j" if "i < j" and "j \<le> m - 1" for i j
  proof (rule rad_increasing_before [OF T _ q that(1)])
    show "0 < n0"
      using n0 by simp
    show "int j + 2 \<le> n0"
      using that(2) im m1 by linarith
  qed
  show "rad T i < rad T j" if "i < j" and "j \<le> m" for i j
  proof (cases "j \<le> m - 1")
    case True
    with that(1) show ?thesis
      by (rule before)
  next
    case False
    with that(2) have j: "j = m"
      by simp
    show ?thesis
    proof (cases "i = m - 1")
      case True
      with step j show ?thesis
        by simp
    next
      case False
      with that(1) j have "i < m - 1"
        by simp
      then have "rad T i < rad T (m - 1)"
        by (rule before) simp
      with step j show ?thesis
        by simp
    qed
  qed
  show "rad T j < rad T i" if "m \<le> i" and "i < j" for i j
  proof (rule rad_decreasing_after [OF T _ p that(2)])
    show "0 < n0 + 1"
      using n0 by simp
    show "n0 + 1 \<le> int i + 2"
      using that(1) im by linarith
  qed
qed

lemma peak_lower:
  assumes T: "0 < T" and n0: "2 \<le> n0" "n0 + 1 \<le> 399"
    and q: "49653 * (94565000 * n0 * T) \<le> 272115870842319 * 10000"
    and p: "272115870842319 * 1000 \<le> 4965 * (94565000 * (n0 + 1) * T)"
    and cmp: "denom (x_scale T) (real_of_int n0) < denom (x_scale T) (real_of_int (n0 + 1))"
    and m: "m = nat (n0 - 2)"
  shows "m < 398"
    and "\<And>i j. i < j \<Longrightarrow> j \<le> m \<Longrightarrow> rad T i < rad T j"
    and "\<And>i j. m \<le> i \<Longrightarrow> i < j \<Longrightarrow> rad T j < rad T i"
proof -
  have im: "int m = n0 - 2"
    using n0 m by simp
  show "m < 398"
    using n0 im by linarith
  have "int m + 2 = n0"
    using im by linarith
  from arg_cong [OF this, of real_of_int] have r1: "real m + 2 = real_of_int n0"
    by simp
  have r2: "real (Suc m) + 2 = real_of_int (n0 + 1)"
    using r1 by simp
  have step: "rad T (Suc m) < rad T m"
    unfolding rad_less_iff [OF T] r1 r2 by (rule cmp)
  show "rad T i < rad T j" if "i < j" and "j \<le> m" for i j
  proof (rule rad_increasing_before [OF T _ q that(1)])
    show "0 < n0"
      using n0 by simp
    show "int j + 2 \<le> n0"
      using that(2) im by linarith
  qed
  have after: "rad T j < rad T i" if "Suc m \<le> i" and "i < j" for i j
  proof (rule rad_decreasing_after [OF T _ p that(2)])
    show "0 < n0 + 1"
      using n0 by simp
    show "n0 + 1 \<le> int i + 2"
      using that(1) im by linarith
  qed
  show "rad T j < rad T i" if "m \<le> i" and "i < j" for i j
  proof (cases "Suc m \<le> i")
    case True
    then show ?thesis
      using that(2) by (rule after)
  next
    case False
    with that(1) have i: "i = m"
      by simp
    show ?thesis
    proof (cases "j = Suc m")
      case True
      with step i show ?thesis
        by simp
    next
      case False
      with that(2) i have "Suc m < j"
        by simp
      then have "rad T j < rad T (Suc m)"
        by (intro after) simp_all
      with step i show ?thesis
        by simp
    qed
  qed
qed

lemma peak_check_sound:
  assumes T: "0 < T" and c: "peak_check T = Some m"
  shows "m < 398
    \<and> (\<forall>i j. i < j \<and> j \<le> m \<longrightarrow> rad T i < rad T j)
    \<and> (\<forall>i j. m \<le> i \<and> i < j \<longrightarrow> rad T j < rad T i)
    \<and> \<bar>lamda ! m - 2.898 / 10 ^ 3 / of_int T\<bar> \<le> 5 / 10 ^ 9"
proof -
  define n0 where "n0 = (272115870842319 * 10000) div (94565000 * T * 49653)"
  from c have pre: "2 \<le> n0" "n0 + 1 \<le> 399"
      "49653 * (94565000 * n0 * T) \<le> 272115870842319 * 10000"
      "272115870842319 * 1000 \<le> 4965 * (94565000 * (n0 + 1) * T)"
      "0 \<le> arg_lo n0 T" "2 * (arg_lo n0 T + 1) \<le> SC"
      "0 \<le> arg_lo (n0 + 1) T" "2 * (arg_lo (n0 + 1) T + 1) \<le> SC"
    unfolding peak_check_def n0_def [symmetric] Let_def
    by (simp_all split: if_splits)
  have pos: "0 < n0" "0 < n0 + 1"
    using pre(1) by simp_all
  from c consider
      (upper) "den_hi (n0 + 1) T < den_lo n0 T" "\<bar>5 * (n0 + 1) * T - 2898000\<bar> \<le> 5 * T"
        "m = nat (n0 - 1)"
    | (lower) "den_hi n0 T < den_lo (n0 + 1) T" "\<bar>5 * n0 * T - 2898000\<bar> \<le> 5 * T"
        "m = nat (n0 - 2)"
    unfolding peak_check_def n0_def [symmetric] Let_def
    by (auto split: if_splits)
  then show ?thesis
  proof cases
    case upper
    have cmp: "denom (x_scale T) (real_of_int (n0 + 1)) < denom (x_scale T) (real_of_int n0)"
      by (rule den_compare [OF T pos(1) pos(2) pre(5) pre(7) pre(8) upper(1)])
    note u = peak_upper [OF T pre(1-4) cmp upper(3)]
    have e: "int m + 2 = n0 + 1"
      using upper(3) pre(1) by simp
    have "\<bar>5 * (int m + 2) * T - 2898000\<bar> \<le> 5 * T"
      unfolding e by (rule upper(2))
    from peak_distance [OF T u(1) this] u show ?thesis
      by blast
  next
    case lower
    have cmp: "denom (x_scale T) (real_of_int n0) < denom (x_scale T) (real_of_int (n0 + 1))"
      by (rule den_compare [OF T pos(2) pos(1) pre(7) pre(5) pre(6) lower(1)])
    note l = peak_lower [OF T pre(1-4) cmp lower(3)]
    have e: "int m + 2 = n0"
      using lower(3) pre(1) by simp
    have "\<bar>5 * (int m + 2) * T - 2898000\<bar> \<le> 5 * T"
      unfolding e by (rule lower(2))
    from peak_distance [OF T l(1) this] l show ?thesis
      by blast
  qed
qed

subsection \<open>The check succeeds for every temperature of the slider\<close>

lemma checked_1: "check_from 2100 45"
  by code_simp

lemma checked_2: "check_from 6600 45"
  by code_simp

lemma checked_3: "check_from 11100 45"
  by code_simp

lemma checked_4: "check_from 15600 45"
  by code_simp

lemma check_from_sound:
  "check_from T k \<Longrightarrow> j < k \<Longrightarrow> peak_check (T + 100 * int j) \<noteq> None"
proof (induction k arbitrary: T j)
  case 0
  then show ?case by simp
next
  case (Suc k)
  show ?case
  proof (cases j)
    case 0
    with Suc.prems show ?thesis by simp
  next
    case (Suc j')
    with Suc.prems have "check_from (T + 100) k" and "j' < k"
      by simp_all
    then have "peak_check (T + 100 + 100 * int j') \<noteq> None"
      by (rule Suc.IH)
    then show ?thesis
      by (simp add: Suc algebra_simps)
  qed
qed

lemma slider_checked:
  assumes "T \<in> set (slider_values T_slider)"
  shows "peak_check T \<noteq> None"
proof -
  from assms obtain k where k: "k < 180" and T: "T = 2100 + int k * 100"
    by (auto simp: slider_values_eq)
  consider "k < 45" | "45 \<le> k" "k < 90" | "90 \<le> k" "k < 135" | "135 \<le> k" "k < 180"
    using k by linarith
  then show ?thesis
  proof cases
    case 1
    from check_from_sound [OF checked_1 this] show ?thesis
      by (simp add: T mult.commute)
  next
    case 2
    then have "k - 45 < 45"
      by simp
    from check_from_sound [OF checked_2 this] 2 show ?thesis
      by (simp add: T algebra_simps of_nat_diff)
  next
    case 3
    then have "k - 90 < 45"
      by simp
    from check_from_sound [OF checked_3 this] 3 show ?thesis
      by (simp add: T algebra_simps of_nat_diff)
  next
    case 4
    then have "k - 135 < 45"
      by simp
    from check_from_sound [OF checked_4 this] 4 show ?thesis
      by (simp add: T algebra_simps of_nat_diff)
  qed
qed

text \<open>
  C3: for every temperature \<open>T\<close> of the slider there is a sample index \<open>m\<close> such that
  the values of \<open>planck\<close> over the samples strictly increase up to \<open>m\<close> and strictly
  decrease from \<open>m\<close> on. So the sample at \<open>m\<close> is the only maximum among the samples,
  and it lies within one step \<open>5e-9\<close> of \<open>maxlamda T\<close>.
\<close>

theorem planck_single_peak:
  assumes "T \<in> set (slider_values T_slider)"
  shows "\<exists>m w ys. m < length lamda
      \<and> maxlamda (of_int T) = Inr w
      \<and> map (\<lambda>v. planck v (of_int T)) lamda = map Inr ys
      \<and> (\<forall>i j. i < j \<and> j \<le> m \<longrightarrow> ys ! i < ys ! j)
      \<and> (\<forall>i j. m \<le> i \<and> i < j \<and> j < length lamda \<longrightarrow> ys ! j < ys ! i)
      \<and> (\<forall>i. i < length lamda \<and> i \<noteq> m \<longrightarrow> ys ! i < ys ! m)
      \<and> \<bar>lamda ! m - w\<bar> \<le> 5 / 10 ^ 9"
proof -
  from assms have T: "0 < T"
    by (simp add: slider_values_iff)
  from slider_checked [OF assms] obtain m where "peak_check T = Some m"
    by blast
  note s = peak_check_sound [OF T this]
  define ys where "ys = map (rad T) [0..<398]"
  define w :: real where "w = 2.898 / 10 ^ 3 / of_int T"
  have nth: "ys ! i = rad T i" if "i < 398" for i
    using that by (simp add: ys_def)
  have m: "m < 398"
    using s by blast
  have 1: "m < length lamda"
    using m by (simp add: length_lamda)
  have 2: "maxlamda (of_int T) = Inr w"
    using T by (simp add: maxlamda_def w_def)
  have 3: "map (\<lambda>v. planck v (of_int T)) lamda = map Inr ys"
  proof (rule nth_equalityI)
    show "length (map (\<lambda>v. planck v (of_int T)) lamda) = length (map Inr ys)"
      by (simp add: length_lamda ys_def)
    fix i
    assume "i < length (map (\<lambda>v. planck v (of_int T)) lamda)"
    then have i: "i < 398"
      by (simp add: length_lamda)
    then show "map (\<lambda>v. planck v (of_int T)) lamda ! i = map Inr ys ! i"
      using planck_lamda [OF i T] by (simp add: length_lamda ys_def)
  qed
  have 4: "\<forall>i j. i < j \<and> j \<le> m \<longrightarrow> ys ! i < ys ! j"
  proof (intro allI impI)
    fix i j
    assume a: "i < j \<and> j \<le> m"
    then have "rad T i < rad T j"
      using s by blast
    moreover from a m have "i < 398" and "j < 398"
      by simp_all
    ultimately show "ys ! i < ys ! j"
      by (simp add: nth)
  qed
  have 5: "\<forall>i j. m \<le> i \<and> i < j \<and> j < length lamda \<longrightarrow> ys ! j < ys ! i"
  proof (intro allI impI)
    fix i j
    assume a: "m \<le> i \<and> i < j \<and> j < length lamda"
    then have "rad T j < rad T i"
      using s by blast
    moreover from a have "i < 398" and "j < 398"
      by (simp_all add: length_lamda)
    ultimately show "ys ! j < ys ! i"
      by (simp add: nth)
  qed
  have 6: "\<forall>i. i < length lamda \<and> i \<noteq> m \<longrightarrow> ys ! i < ys ! m"
  proof (intro allI impI)
    fix i
    assume a: "i < length lamda \<and> i \<noteq> m"
    show "ys ! i < ys ! m"
    proof (cases "i < m")
      case True
      with 4 show ?thesis
        by blast
    next
      case False
      with a have "m < i"
        by simp
      with 5 a show ?thesis
        by blast
    qed
  qed
  have 7: "\<bar>lamda ! m - w\<bar> \<le> 5 / 10 ^ 9"
    using s unfolding w_def by blast
  from 1 2 3 4 5 6 7 show ?thesis
    by blast
qed

theorem planck_single_peak_witness:
  "\<exists>m w ys. m < length lamda
      \<and> maxlamda 2400 = Inr w
      \<and> map (\<lambda>v. planck v 2400) lamda = map Inr ys
      \<and> 0 < m \<and> ys ! 0 < ys ! m
      \<and> m < 397 \<and> ys ! 397 < ys ! m
      \<and> \<bar>lamda ! m - w\<bar> \<le> 5 / 10 ^ 9"
proof -
  have "(2400::int) \<in> set (slider_values T_slider)"
    by (simp add: slider_values_iff)
  from planck_single_peak [OF this] obtain m w ys where
    m: "m < length lamda" and w: "maxlamda (of_int 2400) = Inr w"
    and ys: "map (\<lambda>v. planck v (of_int 2400)) lamda = map Inr ys"
    and inc: "\<forall>i j. i < j \<and> j \<le> m \<longrightarrow> ys ! i < ys ! j"
    and dec: "\<forall>i j. m \<le> i \<and> i < j \<and> j < length lamda \<longrightarrow> ys ! j < ys ! i"
    and d: "\<bar>lamda ! m - w\<bar> \<le> 5 / 10 ^ 9"
    by blast
  from w have w': "w = 2.898 / 10 ^ 3 / 2400"
    by (simp add: maxlamda_def)
  from m have m398: "m < 398"
    by (simp add: length_lamda)
  have l: "lamda ! m = 1 / 10 ^ 8 + real m * (5 / 10 ^ 9)"
    by (rule lamda_nth [OF m398])
  from d have "238 \<le> real m" and "real m \<le> 241"
    unfolding l w' by (simp_all add: abs_le_iff field_simps)
  then have lo: "0 < m" and hi: "m < 397"
    by linarith+
  from inc lo have "ys ! 0 < ys ! m"
    by blast
  moreover from dec hi have "ys ! 397 < ys ! m"
    by (simp add: length_lamda)
  ultimately show ?thesis
    using m w ys d lo hi by auto
qed

text \<open>
  The temperatures of the slider matter here: at 1000 K Wien's wavelength lies more than
  one step beyond the last sample, so no sample is within one step of it.
\<close>

lemma wien_outside_samples:
  "maxlamda 1000 = Inr (2.898 / 10 ^ 6) \<and> last lamda + 5 / 10 ^ 9 < 2.898 / 10 ^ 6"
  by (simp add: maxlamda_def last_lamda)

section \<open>The scenario at 3000 K\<close>

lemma scenario_eval_lo: "0 \<le> exp_x_lo 197237461"
  by code_simp

lemma scenario_eval_1:
  "(2 ^ 64 * 362880) ^ 2 * (781250000 * 2603 * 10 ^ 8 + 2977607430992971035198723)
     < exp_x_lo 197237461 ^ 2 * (781250000 * 2603 * 10 ^ 8)"
  by code_simp

lemma scenario_eval_2:
  "exp_x_hi 197237462 ^ 2 * (781250000 * 2602 * 10 ^ 8)
     < (2 ^ 64 * 362880) ^ 2 * (781250000 * 2602 * 10 ^ 8 + 2977607430992971035198723)"
  by code_simp

lemma scenario_value:
  "\<exists>y. planck (5 / 10 ^ 7) 3000 = Inr y \<and> 2602 * 10 ^ 8 < y \<and> y < 2603 * 10 ^ 8"
proof -
  define x :: real where "x = 90705290280773 / 18913000000000"
  define E where "E = exp x"
  define K :: real where "K = 2 ^ 64 * 362880"
  define L where "L = real_of_int (exp_x_lo 197237461)"
  define U where "U = real_of_int (exp_x_hi 197237462)"
  define Nn :: real where "Nn = 2977607430992971035198723"
  have K: "0 < K"
    by (simp add: K_def)
  have E: "0 < E"
    by (simp add: E_def)
  have L0: "0 \<le> L"
    unfolding L_def using scenario_eval_lo by simp
  have LE: "L \<le> K * E"
    unfolding L_def K_def E_def x_def by (rule exp_x_lo_sound) (simp_all add: SC_def)
  have EU: "K * E \<le> U"
    unfolding U_def K_def E_def x_def by (rule exp_x_hi_sound) (simp_all add: SC_def)
  have L2: "L\<^sup>2 \<le> K\<^sup>2 * E\<^sup>2"
    using power_mono [OF LE L0, of 2] by (simp add: power_mult_distrib)
  have U2: "K\<^sup>2 * E\<^sup>2 \<le> U\<^sup>2"
    using power_mono [OF EU, of 2] K E by (simp add: power_mult_distrib)
  have "real_of_int ((2 ^ 64 * 362880) ^ 2 * (781250000 * 2603 * 10 ^ 8 + 2977607430992971035198723))
      < real_of_int (exp_x_lo 197237461 ^ 2 * (781250000 * 2603 * 10 ^ 8))"
    using scenario_eval_1 by (simp only: of_int_less_iff)
  then have "K\<^sup>2 * (781250000 * 2603 * 10 ^ 8 + Nn) < L\<^sup>2 * (781250000 * 2603 * 10 ^ 8)"
    by (simp add: K_def L_def Nn_def)
  also have "\<dots> \<le> (K\<^sup>2 * E\<^sup>2) * (781250000 * 2603 * 10 ^ 8)"
    using L2 by (rule mult_right_mono) simp
  finally have "K\<^sup>2 * (781250000 * 2603 * 10 ^ 8 + Nn) < K\<^sup>2 * (E\<^sup>2 * (781250000 * 2603 * 10 ^ 8))"
    by (simp only: mult.assoc)
  then have hi: "781250000 * 2603 * 10 ^ 8 + Nn < E\<^sup>2 * (781250000 * 2603 * 10 ^ 8)"
    using K by (simp only: mult_less_cancel_left_pos zero_less_power)
  have "real_of_int (exp_x_hi 197237462 ^ 2 * (781250000 * 2602 * 10 ^ 8))
      < real_of_int ((2 ^ 64 * 362880) ^ 2 * (781250000 * 2602 * 10 ^ 8 + 2977607430992971035198723))"
    using scenario_eval_2 by (simp only: of_int_less_iff)
  then have "U\<^sup>2 * (781250000 * 2602 * 10 ^ 8) < K\<^sup>2 * (781250000 * 2602 * 10 ^ 8 + Nn)"
    by (simp add: K_def U_def Nn_def)
  moreover have "(K\<^sup>2 * E\<^sup>2) * (781250000 * 2602 * 10 ^ 8) \<le> U\<^sup>2 * (781250000 * 2602 * 10 ^ 8)"
    using U2 by (rule mult_right_mono) simp
  ultimately have "K\<^sup>2 * (E\<^sup>2 * (781250000 * 2602 * 10 ^ 8)) < K\<^sup>2 * (781250000 * 2602 * 10 ^ 8 + Nn)"
    by (simp only: mult.assoc)
  then have lo: "E\<^sup>2 * (781250000 * 2602 * 10 ^ 8) < 781250000 * 2602 * 10 ^ 8 + Nn"
    using K by (simp only: mult_less_cancel_left_pos zero_less_power)
  have arg: "h * c / (5 / 10 ^ 7 * B * 3000) = x + x"
    by (simp add: h_def c_def B_def x_def)
  have num: "2 * h * c\<^sup>2 / (5 / 10 ^ 7) ^ 5 = Nn / 781250000"
    by (simp add: h_def c_def Nn_def power_divide)
  have E2: "exp (x + x) = E\<^sup>2"
    unfolding E_def power2_eq_square by (rule exp_add)
  from hi have d: "0 < E\<^sup>2 - 1"
    by (simp add: Nn_def algebra_simps)
  define y where "y = Nn / 781250000 / (E\<^sup>2 - 1)"
  have "planck (5 / 10 ^ 7) 3000
      = Inr (2 * h * c ^ 2 / ((5 / 10 ^ 7) ^ 5 * (exp (h * c / (5 / 10 ^ 7 * B * 3000)) - 1)))"
    by (rule planck_eq) simp_all
  also have "2 * h * c ^ 2 / ((5 / 10 ^ 7) ^ 5 * (exp (h * c / (5 / 10 ^ 7 * B * 3000)) - 1)) = y"
    unfolding arg E2 y_def num [symmetric] by (simp only: divide_divide_eq_left)
  finally have p: "planck (5 / 10 ^ 7) 3000 = Inr y" .
  have "y < 2603 * 10 ^ 8"
    unfolding y_def using d hi by (simp add: field_simps)
  moreover have "2602 * 10 ^ 8 < y"
    unfolding y_def using d lo by (simp add: field_simps)
  ultimately show ?thesis
    using p by blast
qed

text \<open>
  C8, as stated, puts \<open>planck 5e-7 3000\<close> on the order of \<open>10\<^sup>13\<close>. The value is
  below \<open>10\<^sup>12\<close>: it is not within a factor of ten of \<open>10\<^sup>13\<close>.
\<close>

theorem scenario_3000_not_1e13:
  "planck (5 / 10 ^ 7) 3000 \<notin> Inr ` {10 ^ 12 .. 10 ^ 14}"
proof -
  from scenario_value obtain y where "planck (5 / 10 ^ 7) 3000 = Inr y" and "y < 2603 * 10 ^ 8"
    by blast
  then show ?thesis
    by auto
qed

text \<open>
  C8, amended: \<open>maxlamda 3000\<close> is \<open>9.66e-7\<close> (966 nm), and \<open>planck 5e-7 3000\<close> is a
  number between \<open>2.602e11\<close> and \<open>2.603e11\<close>, on the order of \<open>10\<^sup>11\<close>, for
  \<open>h = 6.62607015e-34\<close>, \<open>c = 299792458\<close> and \<open>k = 1.380649e-23\<close>.
\<close>

theorem scenario_3000:
  "maxlamda 3000 = Inr (9.66 / 10 ^ 7)
   \<and> (\<exists>y. planck (5 / 10 ^ 7) 3000 = Inr y \<and> 2.602 * 10 ^ 11 < y \<and> y < 2.603 * 10 ^ 11)"
proof
  show "maxlamda 3000 = Inr (9.66 / 10 ^ 7)"
    by (simp add: maxlamda_def)
  from scenario_value obtain y where "planck (5 / 10 ^ 7) 3000 = Inr y"
    and "2602 * 10 ^ 8 < y" and "y < 2603 * 10 ^ 8"
    by blast
  then show "\<exists>y. planck (5 / 10 ^ 7) 3000 = Inr y \<and> 2.602 * 10 ^ 11 < y \<and> y < 2.603 * 10 ^ 11"
    by auto
qed

end
